theory Spec2Isabelle
  imports Main
begin

section \<open>JavaScript values\<close>

text \<open>
  The handlers are JavaScript: request parameters, body fields and column values are
  dynamically typed, and the handlers rely on truthiness (\<open>if (status)\<close>, \<open>a || b\<close>),
  on strict equality and, in the pagination arithmetic, on the coercions of \<open>+\<close> and
  \<open>-\<close>. Numbers are the integer-valued ones; \<open>JNaN\<close> is the result of a failed
  numeric coercion.
\<close>

datatype jsval = JUndefined | JNull | JBool bool | JNum int | JNaN | JStr string

fun truthy :: "jsval \<Rightarrow> bool" where
  "truthy JUndefined = False"
| "truthy JNull = False"
| "truthy (JBool b) = b"
| "truthy (JNum n) = (n \<noteq> 0)"
| "truthy JNaN = False"
| "truthy (JStr s) = (s \<noteq> [])"

text \<open>\<open>a || b\<close>\<close>

definition js_or :: "jsval \<Rightarrow> jsval \<Rightarrow> jsval" where
  "js_or a b = (if truthy a then a else b)"

text \<open>\<open>a === b\<close> on primitive values: structural, except that NaN equals nothing.\<close>

definition strict_eq :: "jsval \<Rightarrow> jsval \<Rightarrow> bool" where
  "strict_eq a b = (a = b \<and> a \<noteq> JNaN)"

text \<open>A value of the store or of \<open>req.user\<close> that is either null or a string.\<close>

definition nullable :: "string option \<Rightarrow> jsval" where
  "nullable m = (case m of None \<Rightarrow> JNull | Some s \<Rightarrow> JStr s)"

text \<open>
  A property of \<open>req.query\<close> or \<open>req.params\<close>: absent (\<open>undefined\<close>) or a string.
  Destructuring with a default (\<open>limit = 50\<close>) replaces only \<open>undefined\<close>.
\<close>

definition param :: "string option \<Rightarrow> jsval" where
  "param p = (case p of None \<Rightarrow> JUndefined | Some s \<Rightarrow> JStr s)"

definition default_to :: "jsval \<Rightarrow> jsval \<Rightarrow> jsval" where
  "default_to v d = (if v = JUndefined then d else v)"

subsection \<open>Number to string and string to number\<close>

definition digit_char :: "nat \<Rightarrow> char" where
  "digit_char d =
     (if d = 0 then CHR ''0'' else if d = 1 then CHR ''1'' else if d = 2 then CHR ''2''
      else if d = 3 then CHR ''3'' else if d = 4 then CHR ''4'' else if d = 5 then CHR ''5''
      else if d = 6 then CHR ''6'' else if d = 7 then CHR ''7'' else if d = 8 then CHR ''8''
      else CHR ''9'')"

definition digit_val :: "char \<Rightarrow> nat option" where
  "digit_val c =
     map_of [(CHR ''0'', 0), (CHR ''1'', 1), (CHR ''2'', 2), (CHR ''3'', 3), (CHR ''4'', 4),
             (CHR ''5'', 5), (CHR ''6'', 6), (CHR ''7'', 7), (CHR ''8'', 8), (CHR ''9'', 9)] c"

fun digits :: "nat \<Rightarrow> string" where
  "digits n = (if n < 10 then [digit_char n] else digits (n div 10) @ [digit_char (n mod 10)])"

declare digits.simps [simp del]

definition show_int :: "int \<Rightarrow> string" where
  "show_int i = (if i < 0 then CHR ''-'' # digits (nat (- i)) else digits (nat i))"

fun parse_digits :: "nat \<Rightarrow> string \<Rightarrow> nat option" where
  "parse_digits acc [] = Some acc"
| "parse_digits acc (c # cs) =
     (case digit_val c of None \<Rightarrow> None | Some d \<Rightarrow> parse_digits (10 * acc + d) cs)"

definition is_space :: "char \<Rightarrow> bool" where
  "is_space c = (c = CHR '' '' \<or> c = CHR 0x09 \<or> c = CHR 0x0A \<or> c = CHR 0x0D)"

definition trim :: "string \<Rightarrow> string" where
  "trim s = rev (dropWhile is_space (rev (dropWhile is_space s)))"

text \<open>
  \<open>Number(s)\<close> for a string: surrounding white space is dropped, the empty string is 0,
  an optionally signed run of decimal digits is that integer. Every other string is
  mapped to NaN here; the fractional, exponent, hexadecimal and \<open>Infinity\<close> literals
  that JavaScript also accepts are outside this model.
\<close>

definition string_to_number :: "string \<Rightarrow> jsval" where
  "string_to_number s =
     (case trim s of
        [] \<Rightarrow> JNum 0
      | c # cs \<Rightarrow>
          if c = CHR ''-'' \<and> cs \<noteq> [] then
            (case parse_digits 0 cs of None \<Rightarrow> JNaN | Some n \<Rightarrow> JNum (- int n))
          else if c = CHR ''+'' \<and> cs \<noteq> [] then
            (case parse_digits 0 cs of None \<Rightarrow> JNaN | Some n \<Rightarrow> JNum (int n))
          else
            (case parse_digits 0 (c # cs) of None \<Rightarrow> JNaN | Some n \<Rightarrow> JNum (int n)))"

fun to_number :: "jsval \<Rightarrow> jsval" where
  "to_number JUndefined = JNaN"
| "to_number JNull = JNum 0"
| "to_number (JBool b) = JNum (if b then 1 else 0)"
| "to_number (JNum n) = JNum n"
| "to_number JNaN = JNaN"
| "to_number (JStr s) = string_to_number s"

fun to_string :: "jsval \<Rightarrow> string" where
  "to_string JUndefined = ''undefined''"
| "to_string JNull = ''null''"
| "to_string (JBool b) = (if b then ''true'' else ''false'')"
| "to_string (JNum n) = show_int n"
| "to_string JNaN = ''NaN''"
| "to_string (JStr s) = s"

fun is_string :: "jsval \<Rightarrow> bool" where
  "is_string (JStr s) = True"
| "is_string _ = False"

text \<open>\<open>a + b\<close>: concatenation as soon as one operand is a string, addition otherwise.\<close>

definition js_add :: "jsval \<Rightarrow> jsval \<Rightarrow> jsval" where
  "js_add a b =
     (if is_string a \<or> is_string b then JStr (to_string a @ to_string b)
      else (case (to_number a, to_number b) of
              (JNum x, JNum y) \<Rightarrow> JNum (x + y)
            | _ \<Rightarrow> JNaN))"

text \<open>\<open>a - b\<close>: always numeric.\<close>

definition js_sub :: "jsval \<Rightarrow> jsval \<Rightarrow> jsval" where
  "js_sub a b =
     (case (to_number a, to_number b) of
        (JNum x, JNum y) \<Rightarrow> JNum (x - y)
      | _ \<Rightarrow> JNaN)"

section \<open>Data model\<close>

text \<open>
  The rows of the three tables the handlers touch. Identifiers (\<open>id\<close>, \<open>created_by\<close>,
  \<open>municipality_id\<close>, ...) are strings, \<open>created_at\<close> is a point in time and the
  coordinates are opaque to the handlers (they are only handed to the geocoder and to
  the store), represented as integers. The fields carry a table prefix because the
  tables share column names.
\<close>

type_synonym ident = string

record user =
  u_id :: ident
  u_name :: string
  u_email :: string
  u_role :: string
  u_municipality_id :: "ident option"
  u_home_address :: "string option"
  u_lat :: "int option"
  u_lng :: "int option"
  u_created_at :: int

record report =
  r_id :: ident
  r_title :: string
  r_description :: string
  r_category :: string
  r_lat :: int
  r_lng :: int
  r_address :: string
  r_photo_url :: "string option"
  r_municipality_id :: ident
  r_created_by :: ident
  r_status :: string
  r_assigned_official :: "ident option"
  r_created_at :: int

record upvote =
  v_report_id :: ident
  v_user_id :: ident

record db =
  reports :: "report list"
  users :: "user list"
  report_upvotes :: "upvote list"

text \<open>The validated body of \<open>POST /reports\<close> (the fields the handler destructures).\<close>

record create_body =
  b_title :: string
  b_description :: string
  b_category :: string
  b_lat :: int
  b_lng :: int
  b_address :: string
  b_photo_url :: "string option"

text \<open>The query string of the two listing routes.\<close>

record list_query =
  q_municipality_id :: "string option"
  q_status :: "string option"
  q_category :: "string option"
  q_limit :: "string option"
  q_offset :: "string option"

section \<open>Responses\<close>

text \<open>
  Every \<open>res.status(n).json(formatError(...))\<close> of the handlers is one constructor:
  \<^item> \<open>Unauthenticated\<close>, \<open>ValidationFailed\<close>: the middleware's refusals;
  \<^item> \<open>Forbidden\<close>: 403 "Access denied" / "Access denied to reports from other municipalities",
    and the refusal of the role checks;
  \<^item> \<open>NotFound\<close>: 404 "Report not found" / "User not found";
  \<^item> \<open>UnresolvableLocation\<close>: 400 "Could not determine municipality for this location";
  \<^item> \<open>SelfUpvoteForbidden\<close>: 400 "Cannot upvote your own report";
  \<^item> \<open>InvalidAssignment\<close>: 400 "Invalid official assignment";
  \<^item> \<open>StoreFailure\<close>: 400 "Failed to ..." after an error reply of the store;
  \<^item> \<open>Internal\<close>: 500 "Internal server error", the \<open>catch\<close> block;
  \<^item> \<open>EndpointNotFound\<close>: the 404 of the server for a path no route matches.
\<close>

datatype failure =
    Unauthenticated | ValidationFailed
  | Forbidden | NotFound | UnresolvableLocation | SelfUpvoteForbidden
  | InvalidAssignment | StoreFailure | Internal | EndpointNotFound

datatype payload =
    ReportCreated report
  | ReportList "report list" nat
  | ReportFound report
  | Upvoted bool
  | ReportUpdated report
  | UserFound user

type_synonym response = "failure + payload"

fun status_code :: "response \<Rightarrow> nat" where
  "status_code (Inl Unauthenticated) = 401"
| "status_code (Inl ValidationFailed) = 400"
| "status_code (Inl Forbidden) = 403"
| "status_code (Inl NotFound) = 404"
| "status_code (Inl UnresolvableLocation) = 400"
| "status_code (Inl SelfUpvoteForbidden) = 400"
| "status_code (Inl InvalidAssignment) = 400"
| "status_code (Inl StoreFailure) = 400"
| "status_code (Inl Internal) = 500"
| "status_code (Inl EndpointNotFound) = 404"
| "status_code (Inr (ReportCreated r)) = 201"
| "status_code (Inr p) = 200"

section \<open>The storage collaborator\<close>

text \<open>
  The store is reached through a query client. A call either completes, or the client
  reports an error value (\<open>{ data: null, error }\<close>), or the awaited call throws and the
  handler's \<open>catch\<close> block answers. Which of the three happens at each call site, what
  the geocoder answers, and the values the store chooses for a new report row (its
  id, its creation time, the column default of \<open>status\<close>) are parameters of a request.
\<close>

datatype outcome = Completes | Errors | Throws

datatype call =
    Geocode | CreateInsert | MineSelect | ListSelect | GetSelect
  | UpvoteSelectReport | UpvoteSelectExisting | UpvoteDelete | UpvoteInsert
  | UpdateSelectReport | UpdateSelectOfficial | UpdateApply
  | UserSelect | MeSelect

record env =
  store :: "call \<Rightarrow> outcome"
  geocode :: "int \<Rightarrow> int \<Rightarrow> ident option"
  new_id :: ident
  now :: int
  default_status :: string

datatype 'a reply = Data 'a | Error | Thrown

subsection \<open>Query builder\<close>

text \<open>
  A query is built by chaining \<open>.eq\<close>, \<open>.order\<close> and \<open>.range\<close> (here \<open>eq_filter\<close>,
  \<open>order_by\<close>, \<open>range_of\<close>) and runs when it is awaited: the filters select rows, then
  the order applies, then the range.
\<close>

record query =
  filters :: "(string \<times> jsval) list"
  ordering :: "(string \<times> bool) option"
  window :: "(jsval \<times> jsval) option"

definition select_from :: query where
  "select_from = \<lparr>filters = [], ordering = None, window = None\<rparr>"

definition eq_filter :: "string \<Rightarrow> jsval \<Rightarrow> query \<Rightarrow> query" where
  "eq_filter c v q = q\<lparr>filters := filters q @ [(c, v)]\<rparr>"

definition order_by :: "string \<Rightarrow> bool \<Rightarrow> query \<Rightarrow> query" where
  "order_by c ascending q = q\<lparr>ordering := Some (c, ascending)\<rparr>"

definition range_of :: "jsval \<Rightarrow> jsval \<Rightarrow> query \<Rightarrow> query" where
  "range_of from to q = q\<lparr>window := Some (from, to)\<rparr>"

text \<open>
  \<open>.eq(column, value)\<close> on the text and identifier columns the handlers filter on: a
  row matches when the value is a string equal to the column's; a null column and a
  value that is no string match nothing.
\<close>

definition matches :: "(string \<Rightarrow> 'r \<Rightarrow> string option) \<Rightarrow> 'r \<Rightarrow> string \<times> jsval \<Rightarrow> bool" where
  "matches col r f = (case snd f of JStr s \<Rightarrow> col (fst f) r = Some s | _ \<Rightarrow> False)"

text \<open>
  \<open>.range(from, to)\<close> asks for the rows at positions \<open>from\<close> to \<open>to\<close>, both included
  (offset \<open>from\<close>, limit \<open>to - from + 1\<close>); bounds that are no numbers, a negative offset
  or a negative limit are refused.
\<close>

definition slice :: "(jsval \<times> jsval) option \<Rightarrow> 'r list \<Rightarrow> 'r list option" where
  "slice w rows =
     (case w of
        None \<Rightarrow> Some rows
      | Some (from, to) \<Rightarrow>
          (case (to_number from, to_number to) of
             (JNum a, JNum b) \<Rightarrow>
               if 0 \<le> a \<and> 0 \<le> b - a + 1 then Some (take (nat (b - a + 1)) (drop (nat a) rows))
               else None
           | _ \<Rightarrow> None))"

definition sorted_by :: "('r \<Rightarrow> int) \<Rightarrow> (string \<times> bool) option \<Rightarrow> 'r list \<Rightarrow> 'r list option" where
  "sorted_by created ord rows =
     (case ord of
        None \<Rightarrow> Some rows
      | Some (c, ascending) \<Rightarrow>
          if c = ''created_at'' then
            Some (if ascending then sort_key created rows else sort_key (\<lambda>r. - created r) rows)
          else None)"

definition run :: "(string \<Rightarrow> 'r \<Rightarrow> string option) \<Rightarrow> ('r \<Rightarrow> int) \<Rightarrow> 'r list \<Rightarrow> query \<Rightarrow> 'r list option" where
  "run col created table q =
     (case sorted_by created (ordering q) (filter (\<lambda>r. list_all (matches col r) (filters q)) table) of
        None \<Rightarrow> None
      | Some rows \<Rightarrow> slice (window q) rows)"

text \<open>Awaiting a query, and awaiting it with \<open>.single()\<close> (exactly one row, else an error).\<close>

definition await :: "outcome \<Rightarrow> 'r list option \<Rightarrow> 'r list reply" where
  "await oc res =
     (case oc of
        Throws \<Rightarrow> Thrown
      | Errors \<Rightarrow> Error
      | Completes \<Rightarrow> (case res of None \<Rightarrow> Error | Some rows \<Rightarrow> Data rows))"

definition single :: "outcome \<Rightarrow> 'r list option \<Rightarrow> 'r reply" where
  "single oc res =
     (case await oc res of
        Thrown \<Rightarrow> Thrown
      | Error \<Rightarrow> Error
      | Data rows \<Rightarrow> (case rows of [r] \<Rightarrow> Data r | _ \<Rightarrow> Error))"

subsection \<open>Tables\<close>

definition report_column :: "string \<Rightarrow> report \<Rightarrow> string option" where
  "report_column c r =
     (if c = ''id'' then Some (r_id r)
      else if c = ''title'' then Some (r_title r)
      else if c = ''description'' then Some (r_description r)
      else if c = ''category'' then Some (r_category r)
      else if c = ''address'' then Some (r_address r)
      else if c = ''photo_url'' then r_photo_url r
      else if c = ''municipality_id'' then Some (r_municipality_id r)
      else if c = ''created_by'' then Some (r_created_by r)
      else if c = ''status'' then Some (r_status r)
      else if c = ''assigned_official'' then r_assigned_official r
      else None)"

definition user_column :: "string \<Rightarrow> user \<Rightarrow> string option" where
  "user_column c u =
     (if c = ''id'' then Some (u_id u)
      else if c = ''name'' then Some (u_name u)
      else if c = ''email'' then Some (u_email u)
      else if c = ''role'' then Some (u_role u)
      else if c = ''municipality_id'' then u_municipality_id u
      else if c = ''home_address'' then u_home_address u
      else None)"

definition upvote_column :: "string \<Rightarrow> upvote \<Rightarrow> string option" where
  "upvote_column c v =
     (if c = ''report_id'' then Some (v_report_id v)
      else if c = ''user_id'' then Some (v_user_id v)
      else None)"

text \<open>The value of a column of a report row, as the client returns it.\<close>

definition report_value :: "string \<Rightarrow> report \<Rightarrow> jsval" where
  "report_value c r =
     (if c = ''id'' then JStr (r_id r)
      else if c = ''title'' then JStr (r_title r)
      else if c = ''description'' then JStr (r_description r)
      else if c = ''category'' then JStr (r_category r)
      else if c = ''lat'' then JNum (r_lat r)
      else if c = ''lng'' then JNum (r_lng r)
      else if c = ''address'' then JStr (r_address r)
      else if c = ''photo_url'' then nullable (r_photo_url r)
      else if c = ''municipality_id'' then JStr (r_municipality_id r)
      else if c = ''created_by'' then JStr (r_created_by r)
      else if c = ''status'' then JStr (r_status r)
      else if c = ''assigned_official'' then nullable (r_assigned_official r)
      else if c = ''created_at'' then JNum (r_created_at r)
      else JUndefined)"

definition from_reports :: "db \<Rightarrow> query \<Rightarrow> report list option" where
  "from_reports d q = run report_column r_created_at (reports d) q"

definition from_users :: "db \<Rightarrow> query \<Rightarrow> user list option" where
  "from_users d q = run user_column u_created_at (users d) q"

definition from_report_upvotes :: "db \<Rightarrow> query \<Rightarrow> upvote list option" where
  "from_report_upvotes d q = run upvote_column (\<lambda>v. 0) (report_upvotes d) q"

subsection \<open>Writes\<close>

text \<open>
  \<open>.insert({...}).select().single()\<close> on \<open>reports\<close>. The handler supplies the body
  fields, \<open>municipality_id\<close> and \<open>created_by\<close>; the store fills \<open>id\<close>, \<open>created_at\<close>,
  \<open>status\<close> (its column default) and leaves \<open>assigned_official\<close> null. The primary
  key refuses an id that is already taken.
\<close>

definition insert_report :: "env \<Rightarrow> db \<Rightarrow> create_body \<Rightarrow> jsval \<Rightarrow> ident \<Rightarrow> report reply \<times> db" where
  "insert_report e d body municipality_id created_by =
     (case store e CreateInsert of
        Throws \<Rightarrow> (Thrown, d)
      | Errors \<Rightarrow> (Error, d)
      | Completes \<Rightarrow>
          (case municipality_id of
             JStr m \<Rightarrow>
               if new_id e \<in> set (map r_id (reports d)) then (Error, d)
               else
                 (let r = \<lparr>r_id = new_id e, r_title = b_title body,
                           r_description = b_description body, r_category = b_category body,
                           r_lat = b_lat body, r_lng = b_lng body, r_address = b_address body,
                           r_photo_url = b_photo_url body, r_municipality_id = m,
                           r_created_by = created_by, r_status = default_status e,
                           r_assigned_official = None, r_created_at = now e\<rparr>
                  in (Data r, d\<lparr>reports := reports d @ [r]\<rparr>))
           | _ \<Rightarrow> (Error, d)))"

text \<open>
  Modelled from the spec: the schema of \<open>report_upvotes\<close> is not part of the sources;
  the uniqueness of (report_id, user_id) is the one the data model states ("uniqueness
  enforced (a user has at most one upvote per report)"), so
  \<open>.insert({report_id, user_id})\<close> refuses a second row for a pair.
\<close>

definition insert_report_upvote :: "env \<Rightarrow> db \<Rightarrow> ident \<Rightarrow> ident \<Rightarrow> unit reply \<times> db" where
  "insert_report_upvote e d report_id user_id =
     (case store e UpvoteInsert of
        Throws \<Rightarrow> (Thrown, d)
      | Errors \<Rightarrow> (Error, d)
      | Completes \<Rightarrow>
          (let v = \<lparr>v_report_id = report_id, v_user_id = user_id\<rparr>
           in if v \<in> set (report_upvotes d) then (Error, d)
              else (Data (), d\<lparr>report_upvotes := report_upvotes d @ [v]\<rparr>)))"

text \<open>\<open>.delete().eq(...).eq(...)\<close> on \<open>report_upvotes\<close>: every matching row goes.\<close>

definition delete_report_upvotes :: "env \<Rightarrow> db \<Rightarrow> query \<Rightarrow> unit reply \<times> db" where
  "delete_report_upvotes e d q =
     (case store e UpvoteDelete of
        Throws \<Rightarrow> (Thrown, d)
      | Errors \<Rightarrow> (Error, d)
      | Completes \<Rightarrow>
          (Data (), d\<lparr>report_upvotes :=
                        filter (\<lambda>v. \<not> list_all (matches upvote_column v) (filters q))
                          (report_upvotes d)\<rparr>))"

text \<open>
  A request body is a JSON object: keys with values. \<open>updates.assigned_official\<close>
  reads a key (\<open>undefined\<close> when it is absent).
\<close>

type_synonym body = "(string \<times> jsval) list"

definition field :: "body \<Rightarrow> string \<Rightarrow> jsval" where
  "field b k = (case map_of b k of None \<Rightarrow> JUndefined | Some v \<Rightarrow> v)"

text \<open>
  \<open>.update(updates)\<close> writes every key of the object to the column of that name; a key
  that is no column, or a value of the wrong type for its column, fails the call.
\<close>

definition set_text :: "jsval \<Rightarrow> (string \<Rightarrow> report) \<Rightarrow> report option" where
  "set_text v upd = (case v of JStr s \<Rightarrow> Some (upd s) | _ \<Rightarrow> None)"

definition set_nullable_text :: "jsval \<Rightarrow> (string option \<Rightarrow> report) \<Rightarrow> report option" where
  "set_nullable_text v upd =
     (case v of JStr s \<Rightarrow> Some (upd (Some s)) | JNull \<Rightarrow> Some (upd None) | _ \<Rightarrow> None)"

definition set_number :: "jsval \<Rightarrow> (int \<Rightarrow> report) \<Rightarrow> report option" where
  "set_number v upd = (case v of JNum n \<Rightarrow> Some (upd n) | _ \<Rightarrow> None)"

definition set_column :: "string \<Rightarrow> jsval \<Rightarrow> report \<Rightarrow> report option" where
  "set_column c v r =
     (if c = ''id'' then set_text v (\<lambda>s. r\<lparr>r_id := s\<rparr>)
      else if c = ''title'' then set_text v (\<lambda>s. r\<lparr>r_title := s\<rparr>)
      else if c = ''description'' then set_text v (\<lambda>s. r\<lparr>r_description := s\<rparr>)
      else if c = ''category'' then set_text v (\<lambda>s. r\<lparr>r_category := s\<rparr>)
      else if c = ''lat'' then set_number v (\<lambda>n. r\<lparr>r_lat := n\<rparr>)
      else if c = ''lng'' then set_number v (\<lambda>n. r\<lparr>r_lng := n\<rparr>)
      else if c = ''address'' then set_text v (\<lambda>s. r\<lparr>r_address := s\<rparr>)
      else if c = ''photo_url'' then set_nullable_text v (\<lambda>s. r\<lparr>r_photo_url := s\<rparr>)
      else if c = ''municipality_id'' then set_text v (\<lambda>s. r\<lparr>r_municipality_id := s\<rparr>)
      else if c = ''created_by'' then set_text v (\<lambda>s. r\<lparr>r_created_by := s\<rparr>)
      else if c = ''status'' then set_text v (\<lambda>s. r\<lparr>r_status := s\<rparr>)
      else if c = ''assigned_official'' then
        set_nullable_text v (\<lambda>s. r\<lparr>r_assigned_official := s\<rparr>)
      else if c = ''created_at'' then set_number v (\<lambda>n. r\<lparr>r_created_at := n\<rparr>)
      else None)"

definition report_columns :: "string list" where
  "report_columns =
     [''id'', ''title'', ''description'', ''category'', ''lat'', ''lng'', ''address'',
      ''photo_url'', ''municipality_id'', ''created_by'', ''status'', ''assigned_official'',
      ''created_at'']"

fun patch_row :: "string list \<Rightarrow> body \<Rightarrow> report \<Rightarrow> report option" where
  "patch_row [] b r = Some r"
| "patch_row (c # cs) b r =
     (case map_of b c of
        None \<Rightarrow> patch_row cs b r
      | Some v \<Rightarrow> (case set_column c v r of None \<Rightarrow> None | Some r' \<Rightarrow> patch_row cs b r'))"

definition update_row :: "body \<Rightarrow> report \<Rightarrow> report option" where
  "update_row b r =
     (if list_all (\<lambda>k. k \<in> set report_columns) (map fst b) then patch_row report_columns b r
      else None)"

text \<open>The new table and the rows that were updated, or nothing when a row refuses the patch.\<close>

fun patch_table :: "body \<Rightarrow> query \<Rightarrow> report list \<Rightarrow> (report list \<times> report list) option" where
  "patch_table b q [] = Some ([], [])"
| "patch_table b q (r # rs) =
     (case patch_table b q rs of
        None \<Rightarrow> None
      | Some (table, updated) \<Rightarrow>
          if list_all (matches report_column r) (filters q) then
            (case update_row b r of
               None \<Rightarrow> None
             | Some r' \<Rightarrow> Some (r' # table, r' # updated))
          else Some (r # table, updated))"

text \<open>
  \<open>.update(updates).eq('id', id).select().single()\<close>: the write and its answer are one
  statement of the store, so when the answer is not exactly one row, or the primary
  key would no longer be unique, the call fails and nothing is written.
\<close>

definition update_reports :: "env \<Rightarrow> db \<Rightarrow> body \<Rightarrow> query \<Rightarrow> report reply \<times> db" where
  "update_reports e d b q =
     (case store e UpdateApply of
        Throws \<Rightarrow> (Thrown, d)
      | Errors \<Rightarrow> (Error, d)
      | Completes \<Rightarrow>
          (case patch_table b q (reports d) of
             None \<Rightarrow> (Error, d)
           | Some (table, updated) \<Rightarrow>
               (case updated of
                  [r] \<Rightarrow> if distinct (map r_id table) then (Data r, d\<lparr>reports := table\<rparr>)
                         else (Error, d)
                | _ \<Rightarrow> (Error, d))))"

text \<open>
  \<open>getMunicipalityFromCoordinates(lat, lng)\<close>: the helper is not part of the sources;
  its answer (an id or null) is the parameter \<open>geocode\<close>, and it may throw.
\<close>

definition getMunicipalityFromCoordinates :: "env \<Rightarrow> int \<Rightarrow> int \<Rightarrow> jsval reply" where
  "getMunicipalityFromCoordinates e lat lng =
     (case store e Geocode of
        Throws \<Rightarrow> Thrown
      | _ \<Rightarrow> Data (nullable (geocode e lat lng)))"

section \<open>Middleware\<close>

text \<open>
  Modelled from the spec: \<open>authenticateToken\<close>, \<open>requireCitizen\<close> and \<open>requireOfficial\<close>
  (middleware/auth.js) are not part of the sources. Following section 4.1 of the spec,
  a credential resolves to a user or the request fails \<open>Unauthenticated\<close>, and a role
  check fails \<open>Forbidden\<close> when the resolved role is not the required one; the checks
  run before the handler and have no effect on the store.
\<close>

definition authenticateToken :: "user option \<Rightarrow> failure + user" where
  "authenticateToken credential =
     (case credential of None \<Rightarrow> Inl Unauthenticated | Some u \<Rightarrow> Inr u)"

definition requireCitizen :: "user \<Rightarrow> failure + user" where
  "requireCitizen u = (if u_role u = ''citizen'' then Inr u else Inl Forbidden)"

definition requireOfficial :: "user \<Rightarrow> failure + user" where
  "requireOfficial u = (if u_role u = ''official'' then Inr u else Inl Forbidden)"

text \<open>
  Modelled from the spec: \<open>validateRequest(updateReportSchema)\<close>
  (middleware/validation.js) is not part of the sources. Following the Report Update
  section of the spec, \<open>created_by\<close>, \<open>municipality_id\<close> and \<open>id\<close> are immutable and
  "must be rejected or ignored if present in the patch": with \<open>strict\<close> a body naming
  one of them fails validation, without it the three keys are dropped from the body.
\<close>

definition immutable_columns :: "string list" where
  "immutable_columns = [''created_by'', ''municipality_id'', ''id'']"

definition validate_update :: "bool \<Rightarrow> body \<Rightarrow> failure + body" where
  "validate_update strict b =
     (if strict then
        (if list_ex (\<lambda>k. k \<in> set immutable_columns) (map fst b) then Inl ValidationFailed
         else Inr b)
      else Inr (filter (\<lambda>kv. fst kv \<notin> set immutable_columns) b))"

section \<open>Report handlers\<close>

text \<open>
  Each handler takes the request parameters \<open>e\<close>, the store \<open>d\<close>, the resolved caller
  (\<open>req.user\<close>) and its own input, and returns the response with the store after the
  request (read-only handlers return the response alone). The select lists also embed
  summaries of the related municipality and user rows; these are read-only decoration
  of the payload and are not modelled.
\<close>

text \<open>\<open>router.post('/')\<close>: create a new report.\<close>

definition create_report :: "env \<Rightarrow> db \<Rightarrow> user \<Rightarrow> create_body \<Rightarrow> response \<times> db" where
  "create_report e d caller body =
     (let userId = u_id caller;
          municipalityId = nullable (u_municipality_id caller)
      in case (if \<not> truthy municipalityId
               then getMunicipalityFromCoordinates e (b_lat body) (b_lng body)
               else Data municipalityId) of
           Thrown \<Rightarrow> (Inl Internal, d)
         | Error \<Rightarrow> (Inl Internal, d)
         | Data municipalityId \<Rightarrow>
             if \<not> truthy municipalityId then (Inl UnresolvableLocation, d)
             else
               (case insert_report e d body municipalityId userId of
                  (Thrown, d') \<Rightarrow> (Inl Internal, d')
                | (Error, d') \<Rightarrow> (Inl StoreFailure, d')
                | (Data report, d') \<Rightarrow> (Inr (ReportCreated report), d')))"

text \<open>\<open>router.get('/mine')\<close>: the caller's own reports.\<close>

definition get_mine :: "env \<Rightarrow> db \<Rightarrow> user \<Rightarrow> list_query \<Rightarrow> response" where
  "get_mine e d caller rq =
     (let userId = u_id caller;
          status = param (q_status rq);
          category = param (q_category rq);
          limit = default_to (param (q_limit rq)) (JNum 50);
          offset = default_to (param (q_offset rq)) (JNum 0);
          query = range_of offset (js_sub (js_add offset limit) (JNum 1))
                    (order_by ''created_at'' False
                      (eq_filter ''created_by'' (JStr userId) select_from));
          query = (if truthy status then eq_filter ''status'' status query else query);
          query = (if truthy category then eq_filter ''category'' category query else query)
      in case await (store e MineSelect) (from_reports d query) of
           Thrown \<Rightarrow> Inl Internal
         | Error \<Rightarrow> Inl StoreFailure
         | Data found \<Rightarrow> Inr (ReportList found (length found)))"

text \<open>\<open>router.get('/')\<close>: the reports of the official's municipality.\<close>

definition get_reports :: "env \<Rightarrow> db \<Rightarrow> user \<Rightarrow> list_query \<Rightarrow> response" where
  "get_reports e d caller rq =
     (let municipality_id = param (q_municipality_id rq);
          status = param (q_status rq);
          category = param (q_category rq);
          limit = default_to (param (q_limit rq)) (JNum 50);
          offset = default_to (param (q_offset rq)) (JNum 0);
          userMunicipalityId = nullable (u_municipality_id caller);
          targetMunicipalityId = js_or municipality_id userMunicipalityId
      in if \<not> strict_eq targetMunicipalityId userMunicipalityId then Inl Forbidden
         else
           (let query = range_of offset (js_sub (js_add offset limit) (JNum 1))
                          (order_by ''created_at'' False
                            (eq_filter ''municipality_id'' targetMunicipalityId select_from));
                query = (if truthy status then eq_filter ''status'' status query else query);
                query = (if truthy category then eq_filter ''category'' category query
                         else query)
            in case await (store e ListSelect) (from_reports d query) of
                 Thrown \<Rightarrow> Inl Internal
               | Error \<Rightarrow> Inl StoreFailure
               | Data found \<Rightarrow> Inr (ReportList found (length found))))"

text \<open>\<open>router.get('/:id')\<close>: one report by id.\<close>

definition canAccess :: "user \<Rightarrow> report \<Rightarrow> bool" where
  "canAccess currentUser report =
     ((u_role currentUser = ''citizen'' \<and> r_created_by report = u_id currentUser) \<or>
      (u_role currentUser = ''official'' \<and>
       strict_eq (JStr (r_municipality_id report)) (nullable (u_municipality_id currentUser))))"

definition get_report :: "env \<Rightarrow> db \<Rightarrow> user \<Rightarrow> string \<Rightarrow> response" where
  "get_report e d currentUser rid =
     (case single (store e GetSelect)
             (from_reports d (eq_filter ''id'' (JStr rid) select_from)) of
        Thrown \<Rightarrow> Inl Internal
      | Error \<Rightarrow> Inl NotFound
      | Data report \<Rightarrow>
          if \<not> canAccess currentUser report then Inl Forbidden
          else Inr (ReportFound report))"

text \<open>\<open>router.post('/:id/upvote')\<close>: toggle the caller's upvote.\<close>

definition upvote_report :: "env \<Rightarrow> db \<Rightarrow> user \<Rightarrow> string \<Rightarrow> response \<times> db" where
  "upvote_report e d caller reportId =
     (let userId = u_id caller
      in case single (store e UpvoteSelectReport)
                (from_reports d (eq_filter ''id'' (JStr reportId) select_from)) of
           Thrown \<Rightarrow> (Inl Internal, d)
         | Error \<Rightarrow> (Inl NotFound, d)
         | Data report \<Rightarrow>
             if r_created_by report = userId then (Inl SelfUpvoteForbidden, d)
             else
               (let mine = eq_filter ''user_id'' (JStr userId)
                             (eq_filter ''report_id'' (JStr reportId) select_from)
                in case single (store e UpvoteSelectExisting) (from_report_upvotes d mine) of
                     Thrown \<Rightarrow> (Inl Internal, d)
                   | Data existingUpvote \<Rightarrow>
                       (case delete_report_upvotes e d mine of
                          (Thrown, d') \<Rightarrow> (Inl Internal, d')
                        | (Error, d') \<Rightarrow> (Inl StoreFailure, d')
                        | (Data u, d') \<Rightarrow> (Inr (Upvoted False), d'))
                   | Error \<Rightarrow>
                       (case insert_report_upvote e d reportId userId of
                          (Thrown, d') \<Rightarrow> (Inl Internal, d')
                        | (Error, d') \<Rightarrow> (Inl StoreFailure, d')
                        | (Data u, d') \<Rightarrow> (Inr (Upvoted True), d'))))"

text \<open>
  \<open>router.put('/:id')\<close>: update a report. \<open>apply_update\<close> is the tail of the handler,
  from \<open>.update(updates)\<close> on, which both branches of the assignment guard reach.
\<close>

definition apply_update :: "env \<Rightarrow> db \<Rightarrow> string \<Rightarrow> body \<Rightarrow> response \<times> db" where
  "apply_update e d rid updates =
     (case update_reports e d updates (eq_filter ''id'' (JStr rid) select_from) of
        (Thrown, d') \<Rightarrow> (Inl Internal, d')
      | (Error, d') \<Rightarrow> (Inl StoreFailure, d')
      | (Data updatedReport, d') \<Rightarrow> (Inr (ReportUpdated updatedReport), d'))"

definition update_report :: "env \<Rightarrow> db \<Rightarrow> user \<Rightarrow> string \<Rightarrow> body \<Rightarrow> response \<times> db" where
  "update_report e d currentUser rid updates =
     (case single (store e UpdateSelectReport)
             (from_reports d (eq_filter ''id'' (JStr rid) select_from)) of
        Thrown \<Rightarrow> (Inl Internal, d)
      | Error \<Rightarrow> (Inl NotFound, d)
      | Data report \<Rightarrow>
          if \<not> strict_eq (JStr (r_municipality_id report))
                 (nullable (u_municipality_id currentUser))
          then (Inl Forbidden, d)
          else if truthy (field updates ''assigned_official'') then
            (case single (store e UpdateSelectOfficial)
                    (from_users d
                      (eq_filter ''municipality_id'' (nullable (u_municipality_id currentUser))
                        (eq_filter ''role'' (JStr ''official'')
                          (eq_filter ''id'' (field updates ''assigned_official'')
                            select_from)))) of
               Thrown \<Rightarrow> (Inl Internal, d)
             | Error \<Rightarrow> (Inl InvalidAssignment, d)
             | Data official \<Rightarrow> apply_update e d rid updates)
          else apply_update e d rid updates)"

section \<open>Report routes\<close>

text \<open>A route is its middleware chain in front of its handler.\<close>

definition route_post_reports :: "env \<Rightarrow> db \<Rightarrow> user option \<Rightarrow> create_body \<Rightarrow> response \<times> db" where
  "route_post_reports e d credential body =
     (case authenticateToken credential of
        Inl f \<Rightarrow> (Inl f, d)
      | Inr u \<Rightarrow>
          (case requireCitizen u of
             Inl f \<Rightarrow> (Inl f, d)
           | Inr u \<Rightarrow> create_report e d u body))"

definition route_get_mine :: "env \<Rightarrow> db \<Rightarrow> user option \<Rightarrow> list_query \<Rightarrow> response" where
  "route_get_mine e d credential rq =
     (case authenticateToken credential of
        Inl f \<Rightarrow> Inl f
      | Inr u \<Rightarrow> (case requireCitizen u of Inl f \<Rightarrow> Inl f | Inr u \<Rightarrow> get_mine e d u rq))"

definition route_get_reports :: "env \<Rightarrow> db \<Rightarrow> user option \<Rightarrow> list_query \<Rightarrow> response" where
  "route_get_reports e d credential rq =
     (case authenticateToken credential of
        Inl f \<Rightarrow> Inl f
      | Inr u \<Rightarrow> (case requireOfficial u of Inl f \<Rightarrow> Inl f | Inr u \<Rightarrow> get_reports e d u rq))"

definition route_get_report :: "env \<Rightarrow> db \<Rightarrow> user option \<Rightarrow> string \<Rightarrow> response" where
  "route_get_report e d credential rid =
     (case authenticateToken credential of
        Inl f \<Rightarrow> Inl f
      | Inr u \<Rightarrow> get_report e d u rid)"

definition route_post_upvote :: "env \<Rightarrow> db \<Rightarrow> user option \<Rightarrow> string \<Rightarrow> response \<times> db" where
  "route_post_upvote e d credential rid =
     (case authenticateToken credential of
        Inl f \<Rightarrow> (Inl f, d)
      | Inr u \<Rightarrow>
          (case requireCitizen u of
             Inl f \<Rightarrow> (Inl f, d)
           | Inr u \<Rightarrow> upvote_report e d u rid))"

definition route_put_report ::
    "bool \<Rightarrow> env \<Rightarrow> db \<Rightarrow> user option \<Rightarrow> string \<Rightarrow> body \<Rightarrow> response \<times> db" where
  "route_put_report strict e d credential rid b =
     (case authenticateToken credential of
        Inl f \<Rightarrow> (Inl f, d)
      | Inr u \<Rightarrow>
          (case requireOfficial u of
             Inl f \<Rightarrow> (Inl f, d)
           | Inr u \<Rightarrow>
               (case validate_update strict b of
                  Inl f \<Rightarrow> (Inl f, d)
                | Inr updates \<Rightarrow> update_report e d u rid updates)))"

section \<open>User routes\<close>

text \<open>\<open>router.get('/:id')\<close> of the users router: a user by id.\<close>

definition get_user :: "env \<Rightarrow> db \<Rightarrow> user \<Rightarrow> jsval \<Rightarrow> response" where
  "get_user e d currentUser uid =
     (case single (store e UserSelect)
             (from_users d (eq_filter ''id'' uid select_from)) of
        Thrown \<Rightarrow> Inl Internal
      | Error \<Rightarrow> Inl NotFound
      | Data userData \<Rightarrow>
          if \<not> (u_id currentUser = u_id userData \<or>
                 (u_role currentUser = ''official'' \<and>
                  u_municipality_id currentUser = u_municipality_id userData))
          then Inl Forbidden
          else Inr (UserFound userData))"

text \<open>\<open>router.get('/me')\<close> of the users router: the caller's own profile.\<close>

definition get_me :: "env \<Rightarrow> db \<Rightarrow> user \<Rightarrow> response" where
  "get_me e d currentUser =
     (case single (store e MeSelect)
             (from_users d (eq_filter ''id'' (JStr (u_id currentUser)) select_from)) of
        Thrown \<Rightarrow> Inl Internal
      | Error \<Rightarrow> Inl NotFound
      | Data userData \<Rightarrow> Inr (UserFound userData))"

text \<open>
  The router tries its routes in the order of their registration and runs the first
  whose path pattern matches; a \<open>:name\<close> segment matches any one segment. No handler
  here passes the request on (\<open>next()\<close> is never called), so a later route is reached
  only when every earlier pattern fails to match. A path no route matches falls
  through to the server's 404 handler.
\<close>

datatype segment = Literal string | Named string

fun match_path :: "segment list \<Rightarrow> string list \<Rightarrow> (string \<times> string) list option" where
  "match_path [] [] = Some []"
| "match_path (Literal l # ps) (x # xs) = (if l = x then match_path ps xs else None)"
| "match_path (Named n # ps) (x # xs) =
     (if x = [] then None
      else (case match_path ps xs of None \<Rightarrow> None | Some params \<Rightarrow> Some ((n, x) # params)))"
| "match_path _ _ = None"

type_synonym user_route =
  "segment list \<times> (env \<Rightarrow> db \<Rightarrow> user \<Rightarrow> (string \<times> string) list \<Rightarrow> response)"

fun dispatch :: "user_route list \<Rightarrow> env \<Rightarrow> db \<Rightarrow> user \<Rightarrow> string list \<Rightarrow> response" where
  "dispatch [] e d u path = Inl EndpointNotFound"
| "dispatch ((pattern, handler) # routes) e d u path =
     (case match_path pattern path of
        Some params \<Rightarrow> handler e d u params
      | None \<Rightarrow> dispatch routes e d u path)"

text \<open>The users router, with its GET routes in the order of the source file.\<close>

definition users_routes :: "user_route list" where
  "users_routes =
     [([Named ''id''], \<lambda>e d u params. get_user e d u (param (map_of params ''id''))),
      ([Literal ''me''], \<lambda>e d u params. get_me e d u)]"

definition users_router :: "env \<Rightarrow> db \<Rightarrow> user option \<Rightarrow> string list \<Rightarrow> response" where
  "users_router e d credential path =
     (case authenticateToken credential of
        Inl f \<Rightarrow> Inl f
      | Inr u \<Rightarrow> dispatch users_routes e d u path)"

section \<open>Store invariants and a sample deployment\<close>

text \<open>
  The keys of the store: \<open>id\<close> is the primary key of \<open>reports\<close> and of \<open>users\<close>, and an
  upvote row is identified by its pair (report_id, user_id), so a table without a
  repeated row holds at most one upvote per report and user.
\<close>

definition reports_keyed :: "db \<Rightarrow> bool" where
  "reports_keyed d = distinct (map r_id (reports d))"

definition users_keyed :: "db \<Rightarrow> bool" where
  "users_keyed d = distinct (map u_id (users d))"

definition upvotes_unique :: "db \<Rightarrow> bool" where
  "upvotes_unique d = distinct (report_upvotes d)"

definition upvote_rows :: "db \<Rightarrow> ident \<Rightarrow> ident \<Rightarrow> nat" where
  "upvote_rows d report_id user_id =
     length (filter (\<lambda>v. v_report_id v = report_id \<and> v_user_id v = user_id) (report_upvotes d))"

definition has_upvoted :: "db \<Rightarrow> ident \<Rightarrow> ident \<Rightarrow> bool" where
  "has_upvoted d report_id user_id =
     (\<lparr>v_report_id = report_id, v_user_id = user_id\<rparr> \<in> set (report_upvotes d))"

text \<open>A store whose calls all complete.\<close>

definition reliable :: "call \<Rightarrow> outcome" where
  "reliable c = Completes"

text \<open>
  A small deployment used to run the handlers: two municipalities, two citizens
  and four officials, four reports and one upvote.
\<close>

definition person :: "ident \<Rightarrow> string \<Rightarrow> ident option \<Rightarrow> user" where
  "person i role m =
     \<lparr>u_id = i, u_name = i, u_email = i @ ''@example.org'', u_role = role,
      u_municipality_id = m, u_home_address = None, u_lat = None, u_lng = None,
      u_created_at = 0\<rparr>"

definition alice :: user where "alice = person ''alice'' ''citizen'' (Some ''m1'')"
definition dan :: user where "dan = person ''dan'' ''citizen'' None"
definition bob :: user where "bob = person ''bob'' ''official'' (Some ''m2'')"
definition carol :: user where "carol = person ''carol'' ''official'' (Some ''m1'')"
definition erin :: user where "erin = person ''erin'' ''official'' (Some ''m2'')"
definition frank :: user where "frank = person ''frank'' ''official'' (Some ''m1'')"

definition filed :: "ident \<Rightarrow> ident \<Rightarrow> ident \<Rightarrow> int \<Rightarrow> report" where
  "filed i author m t =
     \<lparr>r_id = i, r_title = ''Pothole'', r_description = ''Deep pothole'', r_category = ''roads'',
      r_lat = 0, r_lng = 0, r_address = ''Main Road'', r_photo_url = None,
      r_municipality_id = m, r_created_by = author, r_status = ''open'',
      r_assigned_official = None, r_created_at = t\<rparr>"

definition x1 :: report where "x1 = filed ''x1'' ''alice'' ''m1'' 10"
definition x2 :: report where "x2 = filed ''x2'' ''alice'' ''m1'' 20"
definition x3 :: report where "x3 = filed ''x3'' ''alice'' ''m1'' 30"
definition y1 :: report where "y1 = filed ''y1'' ''dan'' ''m2'' 15"

definition town :: db where
  "town = \<lparr>reports = [x1, y1, x2, x3],
           users = [alice, dan, bob, carol, erin, frank],
           report_upvotes = [\<lparr>v_report_id = ''x1'', v_user_id = ''dan''\<rparr>]\<rparr>"

text \<open>The same deployment after report x1 was assigned to frank.\<close>

definition busy_town :: db where
  "busy_town = town\<lparr>reports := [x1\<lparr>r_assigned_official := Some ''frank''\<rparr>, y1, x2, x3]\<rparr>"

definition calm :: env where
  "calm = \<lparr>store = reliable, geocode = (\<lambda>lat lng. if lat = 0 \<and> lng = 0 then Some ''m2'' else None),
           new_id = ''x4'', now = 40, default_status = ''open''\<rparr>"

definition pothole :: create_body where
  "pothole = \<lparr>b_title = ''Pothole'', b_description = ''Deep pothole'', b_category = ''roads'',
              b_lat = 0, b_lng = 0, b_address = ''Main Road'', b_photo_url = None\<rparr>"

definition page :: "string option \<Rightarrow> string option \<Rightarrow> string option \<Rightarrow> list_query" where
  "page m limit offset =
     \<lparr>q_municipality_id = m, q_status = None, q_category = None,
      q_limit = limit, q_offset = offset\<rparr>"

section \<open>Facts about the store\<close>

lemma run_eq_filter:
  "run col created table (eq_filter c (JStr s) select_from) = Some (filter (\<lambda>r. col c r = Some s) table)"
  by (simp add: run_def eq_filter_def select_from_def sorted_by_def slice_def matches_def)

lemma slice_subset: "slice w xs = Some ys \<Longrightarrow> set ys \<subseteq> set xs"
proof -
  have "set (take n (drop k xs)) \<subseteq> set xs" for n k
    by (meson set_take_subset set_drop_subset subset_trans)
  moreover assume "slice w xs = Some ys"
  then have "ys = xs \<or> (\<exists>n k. ys = take n (drop k xs))"
    by (simp add: slice_def split: option.splits jsval.splits if_splits prod.splits) blast+
  ultimately show "set ys \<subseteq> set xs" by blast
qed

lemma slice_sorted:
  assumes "slice w xs = Some ys" and "sorted (map f xs)"
  shows "sorted (map f ys)"
proof -
  have "sorted (map f (take n (drop k xs)))" for n k
    using assms(2) by (simp add: sorted_wrt_map)
  moreover have "ys = xs \<or> (\<exists>n k. ys = take n (drop k xs))"
    using assms(1)
    by (simp add: slice_def split: option.splits jsval.splits if_splits prod.splits) blast+
  ultimately show ?thesis using assms(2) by blast
qed

lemma sorted_by_set: "sorted_by created ord xs = Some ys \<Longrightarrow> set ys = set xs"
  by (auto simp: sorted_by_def split: option.splits if_splits)

lemma run_filters_hold:
  assumes "run col created table q = Some rows" and "r \<in> set rows" and "f \<in> set (filters q)"
  shows "matches col r f"
proof -
  let ?hit = "filter (\<lambda>r. list_all (matches col r) (filters q)) table"
  obtain sorted where s: "sorted_by created (ordering q) ?hit = Some sorted"
    and w: "slice (window q) sorted = Some rows"
    using assms(1) by (auto simp: run_def split: option.splits)
  have "set sorted = set ?hit"
    using s by (rule sorted_by_set)
  moreover have "set rows \<subseteq> set sorted"
    using w by (rule slice_subset)
  ultimately have "r \<in> set ?hit" using assms(2) by auto
  then show ?thesis using assms(3) by (auto simp: list_all_iff)
qed

lemma await_Data: "await oc res = Data rows \<Longrightarrow> res = Some rows"
  by (auto simp: await_def split: outcome.splits option.splits)

lemma single_rows:
  "single Completes (Some rows) = (case rows of [r] \<Rightarrow> Data r | _ \<Rightarrow> Error)"
  by (simp add: single_def await_def)

lemma single_Data_iff:
  "single oc res = Data r \<longleftrightarrow> oc = Completes \<and> res = Some [r]"
  by (auto simp: single_def await_def split: outcome.splits option.splits list.splits)

lemma filter_key_single:
  "distinct (map f xs) \<Longrightarrow> x \<in> set xs \<Longrightarrow> filter (\<lambda>y. f y = f x) xs = [x]"
proof (induction xs)
  case Nil then show ?case by simp
next
  case (Cons a xs)
  show ?case
  proof (cases "a = x")
    case True
    then have "f x \<notin> f ` set xs"
      using Cons.prems by simp
    then have "filter (\<lambda>y. f y = f x) xs = []"
      unfolding filter_empty_conv by (metis imageI)
    then show ?thesis using True by simp
  next
    case False
    then have "x \<in> set xs" using Cons.prems by simp
    moreover have "f a \<noteq> f x" using Cons.prems calculation by auto
    ultimately show ?thesis using Cons by simp
  qed
qed

lemma filter_key_none:
  "k \<notin> f ` set xs \<Longrightarrow> filter (\<lambda>y. f y = k) xs = []"
  by (auto simp: filter_empty_conv)

lemma filter_narrow:
  assumes "\<And>x. P x \<Longrightarrow> Q x"
  shows "filter P (filter Q xs) = filter P xs"
  using assms by (induction xs) auto

lemma filter_eq_distinct:
  assumes "distinct rows"
  shows "filter (\<lambda>v. v = row) rows = (if row \<in> set rows then [row] else [])"
  using assms by (induction rows) auto

lemma report_by_id:
  "from_reports d (eq_filter ''id'' (JStr rid) select_from) = Some (filter (\<lambda>r. r_id r = rid) (reports d))"
  by (simp add: from_reports_def run_eq_filter report_column_def)

lemma listing_query_filter:
  "(c, v) \<in> set (filters
      (let query = range_of a b (order_by k asc (eq_filter c v select_from));
           query = (if s then eq_filter c1 v1 query else query);
           query = (if t then eq_filter c2 v2 query else query)
       in query))"
  by (simp add: Let_def range_of_def order_by_def eq_filter_def select_from_def)

lemma upvote_lookup:
  "from_report_upvotes d
     (eq_filter ''user_id'' (JStr uid) (eq_filter ''report_id'' (JStr rid) select_from)) =
   Some (filter (\<lambda>v. v = \<lparr>v_report_id = rid, v_user_id = uid\<rparr>) (report_upvotes d))"
proof -
  have "(upvote_column ''report_id'' v = Some rid \<and> upvote_column ''user_id'' v = Some uid) =
        (v = \<lparr>v_report_id = rid, v_user_id = uid\<rparr>)" for v
    by (cases v) (auto simp: upvote_column_def)
  then show ?thesis
    by (simp add: from_report_upvotes_def run_def eq_filter_def select_from_def sorted_by_def
        slice_def matches_def)
qed

lemma upvote_delete_rows:
  "filter (\<lambda>v. \<not> list_all (matches upvote_column v)
       (filters (eq_filter ''user_id'' (JStr uid) (eq_filter ''report_id'' (JStr rid) select_from))))
     rows = filter (\<lambda>v. v \<noteq> \<lparr>v_report_id = rid, v_user_id = uid\<rparr>) rows"
proof -
  have "(upvote_column ''report_id'' v = Some rid \<and> upvote_column ''user_id'' v = Some uid) =
        (v = \<lparr>v_report_id = rid, v_user_id = uid\<rparr>)" for v
    by (cases v) (auto simp: upvote_column_def)
  then show ?thesis
    by (simp add: eq_filter_def select_from_def matches_def)
qed

lemma official_lookup:
  "from_users d
     (eq_filter ''municipality_id'' (nullable m)
       (eq_filter ''role'' (JStr ''official'') (eq_filter ''id'' v select_from))) =
   Some (filter (\<lambda>u. v = JStr (u_id u) \<and> u_role u = ''official'' \<and>
                      m \<noteq> None \<and> u_municipality_id u = m) (users d))"
proof -
  have "(matches user_column u (''id'', v) \<and> matches user_column u (''role'', JStr ''official'') \<and>
         matches user_column u (''municipality_id'', nullable m)) =
        (v = JStr (u_id u) \<and> u_role u = ''official'' \<and> m \<noteq> None \<and> u_municipality_id u = m)"
    for u
    by (auto simp: matches_def user_column_def nullable_def split: jsval.splits option.splits)
  then show ?thesis
    by (simp add: from_users_def run_def eq_filter_def select_from_def sorted_by_def slice_def)
qed

lemma official_rows:
  assumes keyed: "users_keyed d"
  shows "(\<exists>a. filter (\<lambda>u. v = JStr (u_id u) \<and> u_role u = ''official'' \<and>
                   m \<noteq> None \<and> u_municipality_id u = m) (users d) = [a]) =
         (\<exists>a \<in> set (users d). v = JStr (u_id a) \<and> u_role a = ''official'' \<and>
            m \<noteq> None \<and> u_municipality_id a = m)"
    (is "(\<exists>a. filter ?P (users d) = [a]) = (\<exists>a \<in> set (users d). ?P a)")
proof
  assume "\<exists>a. filter ?P (users d) = [a]"
  then obtain a where "filter ?P (users d) = [a]" ..
  then have "a \<in> set (filter ?P (users d))" by simp
  then show "\<exists>a \<in> set (users d). ?P a" by auto
next
  assume "\<exists>a \<in> set (users d). ?P a"
  then obtain a where a: "a \<in> set (users d)" "?P a" by blast
  have one: "filter (\<lambda>u. u_id u = u_id a) (users d) = [a]"
    using keyed a(1) unfolding users_keyed_def by (rule filter_key_single)
  have "filter ?P (filter (\<lambda>u. u_id u = u_id a) (users d)) = filter ?P (users d)"
    using a(2) by (intro filter_narrow) auto
  then have "filter ?P (users d) = [a]"
    unfolding one using a(2) by simp
  then show "\<exists>a. filter ?P (users d) = [a]" ..
qed

subsection \<open>The sample deployment\<close>

lemmas sample_defs =
  town_def busy_town_def calm_def reliable_def x1_def x2_def x3_def y1_def filed_def
  alice_def dan_def bob_def carol_def erin_def frank_def person_def pothole_def page_def

lemmas store_defs =
  from_reports_def from_users_def from_report_upvotes_def run_def eq_filter_def select_from_def
  order_by_def range_of_def matches_def sorted_by_def slice_def single_def await_def
  report_column_def user_column_def upvote_column_def

lemmas update_defs =
  apply_update_def update_reports_def update_row_def report_columns_def set_column_def
  set_text_def set_nullable_text_def set_number_def eq_filter_def select_from_def
  matches_def report_column_def field_def

lemmas listing_defs =
  Let_def param_def default_to_def js_or_def strict_eq_def nullable_def js_add_def js_sub_def
  string_to_number_def trim_def is_space_def digit_val_def store_defs

lemma town_facts:
  "reports_keyed town" "upvotes_unique town" "users_keyed town"
  "x1 \<in> set (reports town)" "x2 \<in> set (reports town)" "y1 \<in> set (reports town)"
  "store calm = reliable"
  by (simp_all add: reports_keyed_def upvotes_unique_def users_keyed_def town_def calm_def
      x1_def x2_def x3_def y1_def filed_def alice_def dan_def bob_def carol_def erin_def
      frank_def person_def)

section \<open>Report creation\<close>

lemma insert_report_cases:
  "insert_report e d body m uid = (rep, d') \<Longrightarrow>
     (rep = Thrown \<and> d' = d) \<or> (rep = Error \<and> d' = d) \<or>
     (\<exists>r s. rep = Data r \<and> m = JStr s \<and> d' = d\<lparr>reports := reports d @ [r]\<rparr> \<and>
        r_id r = new_id e \<and> new_id e \<notin> r_id ` set (reports d) \<and>
        r_municipality_id r = s \<and> r_created_by r = uid \<and>
        r_status r = default_status e \<and> r_assigned_official r = None \<and>
        r_created_at r = now e \<and> r_title r = b_title body \<and>
        r_description r = b_description body \<and> r_category r = b_category body \<and>
        r_lat r = b_lat body \<and> r_lng r = b_lng body \<and> r_address r = b_address body \<and>
        r_photo_url r = b_photo_url body)"
  by (auto simp: insert_report_def Let_def split: outcome.splits jsval.splits if_splits)

lemma create_report_failure:
  "create_report e d caller body = (Inl f, d') \<Longrightarrow> d' = d"
  by (auto simp: create_report_def Let_def getMunicipalityFromCoordinates_def
      split: if_splits reply.splits prod.splits outcome.splits dest!: insert_report_cases)

lemma create_report_success:
  assumes "create_report e d caller body = (Inr p, d')"
  shows "\<exists>r. p = ReportCreated r \<and> d' = d\<lparr>reports := reports d @ [r]\<rparr> \<and>
           r_created_by r = u_id caller \<and> r_status r = default_status e \<and>
           r_assigned_official r = None \<and> r_id r \<notin> r_id ` set (reports d) \<and>
           truthy (JStr (r_municipality_id r)) \<and>
           JStr (r_municipality_id r) =
             (if truthy (nullable (u_municipality_id caller))
              then nullable (u_municipality_id caller)
              else nullable (geocode e (b_lat body) (b_lng body)))"
proof -
  define m where "m = (if truthy (nullable (u_municipality_id caller))
      then nullable (u_municipality_id caller)
      else nullable (geocode e (b_lat body) (b_lng body)))"
  have resolved: "truthy m" and
    ins: "\<exists>r. insert_report e d body m (u_id caller) = (Data r, d') \<and> p = ReportCreated r"
    using assms unfolding m_def
    by (auto simp: create_report_def Let_def getMunicipalityFromCoordinates_def
        split: if_splits reply.splits prod.splits outcome.splits)
  then obtain r where i: "insert_report e d body m (u_id caller) = (Data r, d')"
    and p: "p = ReportCreated r" by blast
  from insert_report_cases [OF i] resolved show ?thesis
    unfolding m_def [symmetric] using p by auto
qed

lemma create_report_unresolved:
  assumes "\<not> truthy (nullable (u_municipality_id caller))"
    and "\<not> truthy (nullable (geocode e (b_lat body) (b_lng body)))"
    and "store e Geocode \<noteq> Throws"
  shows "create_report e d caller body = (Inl UnresolvableLocation, d)"
  using assms
  by (auto simp: create_report_def Let_def getMunicipalityFromCoordinates_def
      split: outcome.splits)

lemma create_report_succeeds:
  assumes "store e = reliable" and "new_id e \<notin> r_id ` set (reports d)"
    and "truthy (nullable (u_municipality_id caller)) \<or>
         truthy (nullable (geocode e (b_lat body) (b_lng body)))"
  shows "\<exists>r d'. create_report e d caller body = (Inr (ReportCreated r), d')"
  using assms
  by (auto simp: create_report_def Let_def getMunicipalityFromCoordinates_def reliable_def
      insert_report_def nullable_def split: option.splits)

text \<open>
  Claim C5. For every caller with role citizen creating a report: the municipality of
  the new report is the caller's own when the caller has one (a non-null, non-empty
  \<open>municipality_id\<close>), otherwise the one the geocoder resolves from (lat, lng); when
  neither resolves, the request fails \<open>UnresolvableLocation\<close> and the store is unchanged.
  A failure of any kind writes nothing. A success appends exactly one report, with a
  fresh id, \<open>created_by\<close> the caller, the municipality as resolved, the store's default
  status and no assignee, and leaves the users and the upvotes as they were; and the
  request does succeed on a reliable store whenever a municipality resolves.
\<close>

theorem create_report_municipality:
  assumes citizen: "u_role caller = ''citizen''"
  shows "(\<not> truthy (nullable (u_municipality_id caller)) \<and>
          \<not> truthy (nullable (geocode e (b_lat body) (b_lng body))) \<and>
          store e Geocode \<noteq> Throws \<longrightarrow>
            route_post_reports e d (Some caller) body = (Inl UnresolvableLocation, d)) \<and>
         (\<forall>f d'. route_post_reports e d (Some caller) body = (Inl f, d') \<longrightarrow> d' = d) \<and>
         (\<forall>p d'. route_post_reports e d (Some caller) body = (Inr p, d') \<longrightarrow>
            (\<exists>r. p = ReportCreated r \<and> reports d' = reports d @ [r] \<and>
               users d' = users d \<and> report_upvotes d' = report_upvotes d \<and>
               r_created_by r = u_id caller \<and> r_status r = default_status e \<and>
               r_assigned_official r = None \<and> r_id r \<notin> r_id ` set (reports d) \<and>
               JStr (r_municipality_id r) =
                 (if truthy (nullable (u_municipality_id caller))
                  then nullable (u_municipality_id caller)
                  else nullable (geocode e (b_lat body) (b_lng body))))) \<and>
         (store e = reliable \<and> new_id e \<notin> r_id ` set (reports d) \<and>
          (truthy (nullable (u_municipality_id caller)) \<or>
           truthy (nullable (geocode e (b_lat body) (b_lng body)))) \<longrightarrow>
            (\<exists>r d'. route_post_reports e d (Some caller) body = (Inr (ReportCreated r), d')))"
proof -
  have route: "route_post_reports e d (Some caller) body = create_report e d caller body"
    using citizen
    by (simp add: route_post_reports_def authenticateToken_def requireCitizen_def)
  show ?thesis
    unfolding route
  proof (intro conjI allI impI)
    assume "\<not> truthy (nullable (u_municipality_id caller)) \<and>
        \<not> truthy (nullable (geocode e (b_lat body) (b_lng body))) \<and>
        store e Geocode \<noteq> Throws"
    then show "create_report e d caller body = (Inl UnresolvableLocation, d)"
      by (intro create_report_unresolved) auto
  next
    fix f d' assume "create_report e d caller body = (Inl f, d')"
    then show "d' = d" by (rule create_report_failure)
  next
    fix p d' assume "create_report e d caller body = (Inr p, d')"
    from create_report_success [OF this]
    show "\<exists>r. p = ReportCreated r \<and> reports d' = reports d @ [r] \<and>
        users d' = users d \<and> report_upvotes d' = report_upvotes d \<and>
        r_created_by r = u_id caller \<and> r_status r = default_status e \<and>
        r_assigned_official r = None \<and> r_id r \<notin> r_id ` set (reports d) \<and>
        JStr (r_municipality_id r) =
          (if truthy (nullable (u_municipality_id caller))
           then nullable (u_municipality_id caller)
           else nullable (geocode e (b_lat body) (b_lng body)))"
      by auto
  next
    assume "store e = reliable \<and> new_id e \<notin> r_id ` set (reports d) \<and>
        (truthy (nullable (u_municipality_id caller)) \<or>
         truthy (nullable (geocode e (b_lat body) (b_lng body))))"
    then show "\<exists>r d'. create_report e d caller body = (Inr (ReportCreated r), d')"
      by (intro create_report_succeeds) auto
  qed
qed

theorem create_report_municipality_witness:
  "u_role dan = ''citizen'' \<and>
   route_post_reports calm town (Some dan) (pothole\<lparr>b_lat := 5\<rparr>) =
     (Inl UnresolvableLocation, town) \<and>
   route_post_reports calm town (Some dan) pothole =
     (Inr (ReportCreated (filed ''x4'' ''dan'' ''m2'' 40)),
      town\<lparr>reports := reports town @ [filed ''x4'' ''dan'' ''m2'' 40]\<rparr>) \<and>
   r_created_by (filed ''x4'' ''dan'' ''m2'' 40) = u_id dan"
proof -
  have c: "u_role dan = ''citizen''" by (simp add: dan_def person_def)
  have a: "route_post_reports calm town (Some dan) (pothole\<lparr>b_lat := 5\<rparr>) =
      (Inl UnresolvableLocation, town)"
    using create_report_municipality [OF c, of calm "pothole\<lparr>b_lat := 5\<rparr>" town]
    by (simp add: dan_def person_def calm_def reliable_def nullable_def pothole_def)
  have b: "route_post_reports calm town (Some dan) pothole =
      (Inr (ReportCreated (filed ''x4'' ''dan'' ''m2'' 40)),
       town\<lparr>reports := reports town @ [filed ''x4'' ''dan'' ''m2'' 40]\<rparr>)"
    by (simp add: route_post_reports_def authenticateToken_def requireCitizen_def
        create_report_def getMunicipalityFromCoordinates_def insert_report_def nullable_def
        Let_def sample_defs)
  have "r_created_by (filed ''x4'' ''dan'' ''m2'' 40) = u_id dan"
    using create_report_municipality [OF c, of calm pothole town] b by auto
  then show ?thesis using c a b by simp
qed

text \<open>The handlers keep the keys of the store, whatever the store's calls do.\<close>

lemma create_report_keeps_keys:
  assumes "create_report e d caller body = (res, d')" and "reports_keyed d"
  shows "reports_keyed d'"
proof (cases res)
  case (Inl f)
  then show ?thesis using assms create_report_failure by blast
next
  case (Inr p)
  then show ?thesis
    using create_report_success [of e d caller body p d'] assms
    by (auto simp: reports_keyed_def)
qed

section \<open>Listing for citizens\<close>

text \<open>
  Claim C8. \<open>GET /reports/mine\<close> is to return at most \<open>limit\<close> reports starting at
  position \<open>offset\<close>. The query parameters arrive as strings, so \<open>offset + limit - 1\<close>
  concatenates before it subtracts: with \<open>limit=1\<close> and \<open>offset=1\<close> the upper bound of
  the range is \<open>"11" - 1 = 10\<close>, and a citizen with three reports receives two.
\<close>

theorem mine_pagination_overruns_limit:
  "route_get_mine calm town (Some alice) (page None (Some ''1'') (Some ''1'')) =
     Inr (ReportList [x2, x1] 2)"
  by (simp add: route_get_mine_def authenticateToken_def requireCitizen_def get_mine_def
      listing_defs sample_defs)

lemma mine_pagination_window:
  "js_sub (js_add (JStr ''1'') (JStr ''1'')) (JNum 1) = JNum 10"
  by (simp add: js_add_def js_sub_def string_to_number_def trim_def is_space_def digit_val_def)

text \<open>
  What the citizen listing does guarantee, for every query string and every store:
  only the caller's own reports, newest first, and \<open>total\<close> the length of the page.
\<close>

lemma mine_own_reports_newest_first:
  assumes "route_get_mine e d (Some caller) rq = Inr p"
  shows "\<exists>found. p = ReportList found (length found) \<and>
           (\<forall>r \<in> set found. r_created_by r = u_id caller) \<and>
           sorted_wrt (\<lambda>a b. r_created_at b \<le> r_created_at a) found"
proof -
  define query where
    "query = (let query = range_of (default_to (param (q_offset rq)) (JNum 0))
                  (js_sub (js_add (default_to (param (q_offset rq)) (JNum 0))
                     (default_to (param (q_limit rq)) (JNum 50))) (JNum 1))
                  (order_by ''created_at'' False
                     (eq_filter ''created_by'' (JStr (u_id caller)) select_from));
               query = (if truthy (param (q_status rq))
                        then eq_filter ''status'' (param (q_status rq)) query else query);
               query = (if truthy (param (q_category rq))
                        then eq_filter ''category'' (param (q_category rq)) query else query)
           in query)"
  have unfolded: "get_mine e d caller rq =
      (case await (store e MineSelect) (from_reports d query) of
         Thrown \<Rightarrow> Inl Internal
       | Error \<Rightarrow> Inl StoreFailure
       | Data found \<Rightarrow> Inr (ReportList found (length found)))"
    by (simp add: get_mine_def query_def Let_def)
  have "get_mine e d caller rq = Inr p"
    using assms
    by (auto simp: route_get_mine_def authenticateToken_def requireCitizen_def
        split: if_splits)
  then obtain found where
    rows: "await (store e MineSelect) (from_reports d query) = Data found"
    and p: "p = ReportList found (length found)"
    unfolding unfolded by (auto split: reply.splits)
  have run: "run report_column r_created_at (reports d) query = Some found"
    using await_Data [OF rows] by (simp add: from_reports_def)
  have member: "(''created_by'', JStr (u_id caller)) \<in> set (filters query)"
    unfolding query_def by (rule listing_query_filter)
  have own: "r_created_by r = u_id caller" if "r \<in> set found" for r
    using run_filters_hold [OF run that member]
    by (simp add: matches_def report_column_def)
  have ord: "ordering query = Some (''created_at'', False)"
    by (simp add: query_def Let_def range_of_def order_by_def eq_filter_def)
  let ?hit = "filter (\<lambda>r. list_all (matches report_column r) (filters query)) (reports d)"
  have "slice (window query) (sort_key (\<lambda>r. - r_created_at r) ?hit) = Some found"
    using run by (simp add: run_def sorted_by_def ord)
  then have "sorted (map (\<lambda>r. - r_created_at r) found)"
    by (rule slice_sorted) simp
  then have "sorted_wrt (\<lambda>a b. r_created_at b \<le> r_created_at a) found"
    by (simp add: sorted_wrt_map)
  then show ?thesis using p own by blast
qed

text \<open>With neither \<open>limit\<close> nor \<open>offset\<close> in the query string the page holds at most 50 reports.\<close>

lemma mine_default_page:
  assumes "route_get_mine e d (Some caller) rq = Inr (ReportList found n)"
    and "q_limit rq = None" and "q_offset rq = None"
  shows "n \<le> 50"
proof -
  have "get_mine e d caller rq = Inr (ReportList found n)"
    using assms(1)
    by (auto simp: route_get_mine_def authenticateToken_def requireCitizen_def
        split: if_splits)
  then obtain rows where "slice (Some (JNum 0, JNum 49)) rows = Some found" and "n = length found"
    using assms(2,3)
    by (auto simp: get_mine_def Let_def param_def default_to_def js_add_def js_sub_def
        from_reports_def run_def range_of_def order_by_def eq_filter_def await_def
        split: reply.splits outcome.splits option.splits if_splits)
  then show ?thesis by (auto simp: slice_def)
qed

section \<open>Listing for officials\<close>

text \<open>
  Claim C1. For every authenticated caller with role official, \<open>GET /reports\<close> fails
  \<open>Forbidden\<close>, returning no report data, when the caller supplies a target
  \<open>municipality_id\<close> (a non-empty query parameter) that differs from the caller's own;
  in every other case each report of a successful answer has the caller's
  \<open>municipality_id\<close>, so no answer ever carries another municipality's data. This holds
  for every store, query string and outcome of the select. (An empty parameter is
  falsy for \<open>municipality_id || userMunicipalityId\<close> and counts as not supplied.)
\<close>

theorem official_listing_tenant_boundary:
  assumes official: "u_role caller = ''official''"
  shows "(\<forall>m. q_municipality_id rq = Some m \<and> m \<noteq> [] \<and> u_municipality_id caller \<noteq> Some m \<longrightarrow>
            route_get_reports e d (Some caller) rq = Inl Forbidden) \<and>
         (\<forall>p. route_get_reports e d (Some caller) rq = Inr p \<longrightarrow>
            (\<exists>found. p = ReportList found (length found) \<and>
               (\<forall>r \<in> set found. u_municipality_id caller = Some (r_municipality_id r))))"
proof (intro conjI allI impI)
  fix m
  assume "q_municipality_id rq = Some m \<and> m \<noteq> [] \<and> u_municipality_id caller \<noteq> Some m"
  then show "route_get_reports e d (Some caller) rq = Inl Forbidden"
    using official
    by (auto simp: route_get_reports_def authenticateToken_def requireOfficial_def
        get_reports_def Let_def param_def js_or_def strict_eq_def nullable_def
        split: option.splits)
next
  fix p
  assume ok: "route_get_reports e d (Some caller) rq = Inr p"
  define target where
    "target = js_or (param (q_municipality_id rq)) (nullable (u_municipality_id caller))"
  define query where
    "query = (let query = range_of (default_to (param (q_offset rq)) (JNum 0))
                  (js_sub (js_add (default_to (param (q_offset rq)) (JNum 0))
                     (default_to (param (q_limit rq)) (JNum 50))) (JNum 1))
                  (order_by ''created_at'' False
                     (eq_filter ''municipality_id'' target select_from));
               query = (if truthy (param (q_status rq))
                        then eq_filter ''status'' (param (q_status rq)) query else query);
               query = (if truthy (param (q_category rq))
                        then eq_filter ''category'' (param (q_category rq)) query else query)
           in query)"
  have unfolded: "get_reports e d caller rq =
      (if \<not> strict_eq target (nullable (u_municipality_id caller)) then Inl Forbidden
       else case await (store e ListSelect) (from_reports d query) of
              Thrown \<Rightarrow> Inl Internal
            | Error \<Rightarrow> Inl StoreFailure
            | Data found \<Rightarrow> Inr (ReportList found (length found)))"
    by (simp add: get_reports_def target_def query_def Let_def)
  have own: "get_reports e d caller rq = Inr p"
    using ok official
    by (simp add: route_get_reports_def authenticateToken_def requireOfficial_def)
  then have same: "target = nullable (u_municipality_id caller)"
    unfolding unfolded by (auto simp: strict_eq_def split: if_splits)
  from own obtain found where
    rows: "await (store e ListSelect) (from_reports d query) = Data found"
    and p: "p = ReportList found (length found)"
    unfolding unfolded by (auto split: if_splits reply.splits)
  have run: "run report_column r_created_at (reports d) query = Some found"
    using await_Data [OF rows] by (simp add: from_reports_def)
  have member: "(''municipality_id'', target) \<in> set (filters query)"
    unfolding query_def by (rule listing_query_filter)
  have "u_municipality_id caller = Some (r_municipality_id r)" if "r \<in> set found" for r
  proof -
    have "matches report_column r (''municipality_id'', target)"
      using run that member by (rule run_filters_hold)
    then show ?thesis
      unfolding same
      by (auto simp: matches_def nullable_def report_column_def split: option.splits)
  qed
  then show "\<exists>found. p = ReportList found (length found) \<and>
      (\<forall>r \<in> set found. u_municipality_id caller = Some (r_municipality_id r))"
    using p by blast
qed

theorem official_listing_tenant_boundary_witness:
  "u_role carol = ''official'' \<and>
   route_get_reports calm town (Some carol) (page (Some ''m2'') None None) = Inl Forbidden \<and>
   route_get_reports calm town (Some carol) (page (Some ''m1'') None None) =
     Inr (ReportList [x3, x2, x1] 3) \<and>
   u_municipality_id carol = Some (r_municipality_id x2)"
proof -
  have o: "u_role carol = ''official''"
    by (simp add: carol_def person_def)
  have f: "route_get_reports calm town (Some carol) (page (Some ''m2'') None None) = Inl Forbidden"
    using official_listing_tenant_boundary [OF o, of "page (Some ''m2'') None None" calm town]
    by (simp add: page_def carol_def person_def)
  have l: "route_get_reports calm town (Some carol) (page (Some ''m1'') None None) =
      Inr (ReportList [x3, x2, x1] 3)"
    by (simp add: route_get_reports_def authenticateToken_def requireOfficial_def
        get_reports_def Let_def page_def carol_def person_def param_def default_to_def
        js_or_def strict_eq_def nullable_def js_add_def js_sub_def from_reports_def run_def
        range_of_def order_by_def eq_filter_def select_from_def matches_def sorted_by_def
        slice_def await_def calm_def reliable_def town_def report_column_def
        x1_def x2_def x3_def y1_def filed_def)
  have "u_municipality_id carol = Some (r_municipality_id x2)"
    using official_listing_tenant_boundary [OF o, of "page (Some ''m1'') None None" calm town] l
    by fastforce
  then show ?thesis using o f l by simp
qed

section \<open>Single report retrieval\<close>

text \<open>
  Claim C2. For every authenticated caller and report id, \<open>GET /reports/{id}\<close> fails
  \<open>NotFound\<close> when no report has that id, whoever the caller is (the existence check
  comes before the ownership check); when the report exists it is returned if and only if
  the caller is a citizen who created it or an official of its municipality, and every
  other combination fails \<open>Forbidden\<close>. The report id is the primary key of the table and
  the select completes.
\<close>

theorem report_retrieval_access:
  assumes keyed: "reports_keyed d" and ok: "store e GetSelect = Completes"
  shows "(rid \<notin> r_id ` set (reports d) \<longrightarrow>
            route_get_report e d (Some caller) rid = Inl NotFound) \<and>
         (\<forall>r \<in> set (reports d). r_id r = rid \<longrightarrow>
            route_get_report e d (Some caller) rid =
              (if (u_role caller = ''citizen'' \<and> r_created_by r = u_id caller) \<or>
                  (u_role caller = ''official'' \<and>
                   u_municipality_id caller = Some (r_municipality_id r))
               then Inr (ReportFound r) else Inl Forbidden))"
proof (intro conjI impI ballI)
  assume "rid \<notin> r_id ` set (reports d)"
  then have "filter (\<lambda>r. r_id r = rid) (reports d) = []"
    by (rule filter_key_none)
  then show "route_get_report e d (Some caller) rid = Inl NotFound"
    by (simp add: route_get_report_def authenticateToken_def get_report_def report_by_id
        single_rows ok)
next
  fix r assume r: "r \<in> set (reports d)" and rid: "r_id r = rid"
  have "filter (\<lambda>y. r_id y = r_id r) (reports d) = [r]"
    using keyed r unfolding reports_keyed_def by (rule filter_key_single)
  then have sel: "single (store e GetSelect)
      (from_reports d (eq_filter ''id'' (JStr rid) select_from)) = Data r"
    using rid by (simp add: report_by_id single_rows ok)
  have acc: "canAccess caller r \<longleftrightarrow>
      (u_role caller = ''citizen'' \<and> r_created_by r = u_id caller) \<or>
      (u_role caller = ''official'' \<and> u_municipality_id caller = Some (r_municipality_id r))"
    by (auto simp: canAccess_def strict_eq_def nullable_def split: option.splits)
  show "route_get_report e d (Some caller) rid =
      (if (u_role caller = ''citizen'' \<and> r_created_by r = u_id caller) \<or>
          (u_role caller = ''official'' \<and>
           u_municipality_id caller = Some (r_municipality_id r))
       then Inr (ReportFound r) else Inl Forbidden)"
    unfolding route_get_report_def authenticateToken_def get_report_def sel
    using acc by simp
qed

theorem report_retrieval_access_witness:
  "reports_keyed town \<and> store calm GetSelect = Completes \<and>
   route_get_report calm town (Some alice) ''zz'' = Inl NotFound \<and>
   route_get_report calm town (Some alice) ''x1'' = Inr (ReportFound x1) \<and>
   route_get_report calm town (Some alice) ''y1'' = Inl Forbidden \<and>
   route_get_report calm town (Some bob) ''y1'' = Inr (ReportFound y1) \<and>
   route_get_report calm town (Some bob) ''x1'' = Inl Forbidden"
proof -
  have k: "reports_keyed town"
    by (simp add: reports_keyed_def town_def x1_def x2_def x3_def y1_def filed_def)
  have s: "store calm GetSelect = Completes"
    by (simp add: calm_def reliable_def)
  have m: "''zz'' \<notin> r_id ` set (reports town)" "x1 \<in> set (reports town)" "y1 \<in> set (reports town)"
    by (simp_all add: town_def x1_def x2_def x3_def y1_def filed_def)
  note t = report_retrieval_access [OF k s]
  have "route_get_report calm town (Some alice) ''zz'' = Inl NotFound"
    using t [of "''zz''" alice] m by blast
  moreover have "route_get_report calm town (Some alice) ''x1'' = Inr (ReportFound x1)"
    using t [of "''x1''" alice] m(2) by (simp add: x1_def filed_def alice_def person_def)
  moreover have "route_get_report calm town (Some alice) ''y1'' = Inl Forbidden"
    using t [of "''y1''" alice] m(3) by (simp add: y1_def filed_def alice_def person_def)
  moreover have "route_get_report calm town (Some bob) ''y1'' = Inr (ReportFound y1)"
    using t [of "''y1''" bob] m(3) by (simp add: y1_def filed_def bob_def person_def)
  moreover have "route_get_report calm town (Some bob) ''x1'' = Inl Forbidden"
    using t [of "''x1''" bob] m(2) by (simp add: x1_def filed_def bob_def person_def)
  ultimately show ?thesis using k s by simp
qed

section \<open>Upvote toggle\<close>

text \<open>The handler on a reliable store with keyed tables, as one case distinction.\<close>

lemma upvote_report_reliable:
  assumes ok: "store e = reliable" and uniq: "upvotes_unique d"
    and sel: "filter (\<lambda>r. r_id r = rid) (reports d) = [r]"
  shows "upvote_report e d caller rid =
           (if r_created_by r = u_id caller then (Inl SelfUpvoteForbidden, d)
            else if has_upvoted d rid (u_id caller) then
              (Inr (Upvoted False),
               d\<lparr>report_upvotes :=
                    filter (\<lambda>v. v \<noteq> \<lparr>v_report_id = rid, v_user_id = u_id caller\<rparr>)
                      (report_upvotes d)\<rparr>)
            else
              (Inr (Upvoted True),
               d\<lparr>report_upvotes :=
                    report_upvotes d @ [\<lparr>v_report_id = rid, v_user_id = u_id caller\<rparr>]\<rparr>))"
proof -
  have rows: "filter (\<lambda>v. v = \<lparr>v_report_id = rid, v_user_id = u_id caller\<rparr>) (report_upvotes d) =
      (if has_upvoted d rid (u_id caller) then [\<lparr>v_report_id = rid, v_user_id = u_id caller\<rparr>]
       else [])"
    using uniq unfolding upvotes_unique_def has_upvoted_def by (rule filter_eq_distinct)
  show ?thesis
    unfolding upvote_report_def Let_def report_by_id upvote_lookup sel rows ok
    by (simp add: single_rows reliable_def delete_report_upvotes_def insert_report_upvote_def
        ok upvote_delete_rows has_upvoted_def)
qed

lemma upvote_own_report_fails:
  assumes "r \<in> set (reports d)" and "r_id r = rid" and "r_created_by r = u_id caller"
  shows "fst (upvote_report e d caller rid) \<in> {Inl NotFound, Inl SelfUpvoteForbidden, Inl Internal}"
proof (cases "single (store e UpvoteSelectReport)
                (from_reports d (eq_filter ''id'' (JStr rid) select_from))")
  case (Data r')
  then have "filter (\<lambda>x. r_id x = rid) (reports d) = [r']"
    by (simp add: single_Data_iff report_by_id)
  moreover have "r \<in> set (filter (\<lambda>x. r_id x = rid) (reports d))"
    using assms by simp
  ultimately have "r' = r" by simp
  then show ?thesis using Data assms by (simp add: upvote_report_def)
next
  case Error then show ?thesis by (simp add: upvote_report_def)
next
  case Thrown then show ?thesis by (simp add: upvote_report_def)
qed

text \<open>
  Claim C3. For every caller with role citizen toggling an upvote on report id \<open>rid\<close>,
  the preconditions are checked in order and the first failure wins: no report with
  that id fails \<open>NotFound\<close>; else a report created by the caller fails
  \<open>SelfUpvoteForbidden\<close>; else an existing upvote row of the caller is deleted and the
  answer is \<open>{upvoted: false}\<close>, and when there is none a row is inserted and the answer
  is \<open>{upvoted: true}\<close>. The store is reliable and its keys hold. The last part holds
  for every behaviour of the store: a citizen never gets a success for their own report.
\<close>

theorem upvote_toggle_preconditions:
  assumes citizen: "u_role caller = ''citizen''"
    and ok: "store e = reliable"
    and keyed: "reports_keyed d" and uniq: "upvotes_unique d"
  shows "(rid \<notin> r_id ` set (reports d) \<longrightarrow>
            route_post_upvote e d (Some caller) rid = (Inl NotFound, d)) \<and>
         (\<forall>r \<in> set (reports d). r_id r = rid \<longrightarrow>
            route_post_upvote e d (Some caller) rid =
              (if r_created_by r = u_id caller then (Inl SelfUpvoteForbidden, d)
               else if has_upvoted d rid (u_id caller) then
                 (Inr (Upvoted False),
                  d\<lparr>report_upvotes :=
                       filter (\<lambda>v. v \<noteq> \<lparr>v_report_id = rid, v_user_id = u_id caller\<rparr>)
                         (report_upvotes d)\<rparr>)
               else
                 (Inr (Upvoted True),
                  d\<lparr>report_upvotes :=
                       report_upvotes d @ [\<lparr>v_report_id = rid, v_user_id = u_id caller\<rparr>]\<rparr>))) \<and>
         (\<forall>r \<in> set (reports d). \<forall>e'. r_id r = rid \<and> r_created_by r = u_id caller \<longrightarrow>
            (\<forall>p. fst (route_post_upvote e' d (Some caller) rid) \<noteq> Inr p))"
proof (intro conjI impI ballI allI)
  assume "rid \<notin> r_id ` set (reports d)"
  then have "filter (\<lambda>r. r_id r = rid) (reports d) = []"
    by (rule filter_key_none)
  then show "route_post_upvote e d (Some caller) rid = (Inl NotFound, d)"
    using citizen
    by (simp add: route_post_upvote_def authenticateToken_def requireCitizen_def
        upvote_report_def report_by_id single_rows ok reliable_def)
next
  fix r assume r: "r \<in> set (reports d)" and rid: "r_id r = rid"
  have "filter (\<lambda>y. r_id y = r_id r) (reports d) = [r]"
    using keyed r unfolding reports_keyed_def by (rule filter_key_single)
  then have sel: "filter (\<lambda>y. r_id y = rid) (reports d) = [r]"
    using rid by simp
  show "route_post_upvote e d (Some caller) rid =
      (if r_created_by r = u_id caller then (Inl SelfUpvoteForbidden, d)
       else if has_upvoted d rid (u_id caller) then
         (Inr (Upvoted False),
          d\<lparr>report_upvotes :=
               filter (\<lambda>v. v \<noteq> \<lparr>v_report_id = rid, v_user_id = u_id caller\<rparr>)
                 (report_upvotes d)\<rparr>)
       else
         (Inr (Upvoted True),
          d\<lparr>report_upvotes :=
               report_upvotes d @ [\<lparr>v_report_id = rid, v_user_id = u_id caller\<rparr>]\<rparr>))"
    using citizen upvote_report_reliable [OF ok uniq sel, of caller]
    by (simp add: route_post_upvote_def authenticateToken_def requireCitizen_def)
next
  fix r e' p
  assume r: "r \<in> set (reports d)"
    and own: "r_id r = rid \<and> r_created_by r = u_id caller"
  have "fst (upvote_report e' d caller rid) \<in>
      {Inl NotFound, Inl SelfUpvoteForbidden, Inl Internal}"
    using r own by (intro upvote_own_report_fails) auto
  then show "fst (route_post_upvote e' d (Some caller) rid) \<noteq> Inr p"
    using citizen
    by (auto simp: route_post_upvote_def authenticateToken_def requireCitizen_def)
qed

theorem upvote_toggle_preconditions_witness:
  "u_role dan = ''citizen'' \<and> store calm = reliable \<and> reports_keyed town \<and>
   upvotes_unique town \<and>
   route_post_upvote calm town (Some dan) ''zz'' = (Inl NotFound, town) \<and>
   route_post_upvote calm town (Some dan) ''y1'' = (Inl SelfUpvoteForbidden, town) \<and>
   route_post_upvote calm town (Some dan) ''x1'' =
     (Inr (Upvoted False), town\<lparr>report_upvotes := []\<rparr>) \<and>
   route_post_upvote calm town (Some dan) ''x2'' =
     (Inr (Upvoted True),
      town\<lparr>report_upvotes := [\<lparr>v_report_id = ''x1'', v_user_id = ''dan''\<rparr>,
                               \<lparr>v_report_id = ''x2'', v_user_id = ''dan''\<rparr>]\<rparr>)"
proof -
  have c: "u_role dan = ''citizen''" by (simp add: dan_def person_def)
  note t = upvote_toggle_preconditions [OF c town_facts(7) town_facts(1) town_facts(2)]
  have "''zz'' \<notin> r_id ` set (reports town)"
    by (simp add: town_def x1_def x2_def x3_def y1_def filed_def)
  then have a: "route_post_upvote calm town (Some dan) ''zz'' = (Inl NotFound, town)"
    using t [of "''zz''"] by blast
  have b: "route_post_upvote calm town (Some dan) ''y1'' = (Inl SelfUpvoteForbidden, town)"
    using t [of "''y1''"] town_facts(6) by (simp add: y1_def filed_def dan_def person_def)
  have x: "route_post_upvote calm town (Some dan) ''x1'' =
      (Inr (Upvoted False), town\<lparr>report_upvotes := []\<rparr>)"
    using t [of "''x1''"] town_facts(4)
    by (simp add: x1_def filed_def dan_def person_def has_upvoted_def town_def)
  have y: "route_post_upvote calm town (Some dan) ''x2'' =
      (Inr (Upvoted True),
       town\<lparr>report_upvotes := [\<lparr>v_report_id = ''x1'', v_user_id = ''dan''\<rparr>,
                                \<lparr>v_report_id = ''x2'', v_user_id = ''dan''\<rparr>]\<rparr>)"
    using t [of "''x2''"] town_facts(5)
    by (simp add: x2_def filed_def dan_def person_def has_upvoted_def town_def)
  show ?thesis using c town_facts a b x y by simp
qed

lemma upvote_rows_le_one:
  assumes "upvotes_unique d"
  shows "upvote_rows d rid uid \<le> 1"
proof -
  have "(v_report_id v = rid \<and> v_user_id v = uid) = (v = \<lparr>v_report_id = rid, v_user_id = uid\<rparr>)"
    for v :: upvote
    by (cases v) auto
  then have "upvote_rows d rid uid =
      length (filter (\<lambda>v. v = \<lparr>v_report_id = rid, v_user_id = uid\<rparr>) (report_upvotes d))"
    by (simp add: upvote_rows_def)
  also have "\<dots> \<le> 1"
    using assms by (simp add: upvotes_unique_def filter_eq_distinct)
  finally show ?thesis .
qed

lemma upvote_report_keeps_uniqueness:
  assumes "upvote_report e d caller rid = (res, d')" and "upvotes_unique d"
  shows "upvotes_unique d'"
  using assms
  by (auto simp: upvote_report_def Let_def delete_report_upvotes_def insert_report_upvote_def
      upvotes_unique_def split: reply.splits if_splits outcome.splits)

text \<open>
  Claim C4. The toggle is involutory: for an existing report and a citizen who is not
  its author, two toggles in sequence bring the upvote back to where it was (the row of
  the pair exists afterwards if and only if it existed before, and the table holds the
  same rows), the first toggle having flipped it; after each toggle the table still holds
  at most one row per report and user.
\<close>

theorem upvote_toggle_involutory:
  assumes citizen: "u_role caller = ''citizen''"
    and ok1: "store e1 = reliable" and ok2: "store e2 = reliable"
    and keyed: "reports_keyed d" and uniq: "upvotes_unique d"
    and r: "r \<in> set (reports d)" and rid: "r_id r = rid"
    and other: "r_created_by r \<noteq> u_id caller"
    and first: "route_post_upvote e1 d (Some caller) rid = (res1, d1)"
    and second: "route_post_upvote e2 d1 (Some caller) rid = (res2, d2)"
  shows "has_upvoted d1 rid (u_id caller) = (\<not> has_upvoted d rid (u_id caller)) \<and>
         has_upvoted d2 rid (u_id caller) = has_upvoted d rid (u_id caller) \<and>
         set (report_upvotes d2) = set (report_upvotes d) \<and>
         reports d2 = reports d \<and> users d2 = users d \<and>
         res1 = Inr (Upvoted (\<not> has_upvoted d rid (u_id caller))) \<and>
         res2 = Inr (Upvoted (has_upvoted d rid (u_id caller))) \<and>
         upvotes_unique d1 \<and> upvotes_unique d2 \<and>
         (\<forall>rid' uid'. upvote_rows d1 rid' uid' \<le> 1 \<and> upvote_rows d2 rid' uid' \<le> 1)"
proof -
  let ?v = "\<lparr>v_report_id = rid, v_user_id = u_id caller\<rparr>"
  let ?out = "\<lambda>d. d\<lparr>report_upvotes := filter (\<lambda>v. v \<noteq> ?v) (report_upvotes d)\<rparr>"
  let ?in = "\<lambda>d. d\<lparr>report_upvotes := report_upvotes d @ [?v]\<rparr>"
  have step: "route_post_upvote e d' (Some caller) rid =
      (if has_upvoted d' rid (u_id caller) then (Inr (Upvoted False), ?out d')
       else (Inr (Upvoted True), ?in d'))"
    if "store e = reliable" "upvotes_unique d'" "reports d' = reports d" for e d'
  proof -
    have "filter (\<lambda>y. r_id y = r_id r) (reports d) = [r]"
      using keyed r unfolding reports_keyed_def by (rule filter_key_single)
    then have "filter (\<lambda>y. r_id y = rid) (reports d') = [r]"
      using rid that(3) by simp
    from upvote_report_reliable [OF that(1) that(2) this, of caller] show ?thesis
      using citizen other
      by (simp add: route_post_upvote_def authenticateToken_def requireCitizen_def)
  qed
  have one: "(res1, d1) =
      (if has_upvoted d rid (u_id caller) then (Inr (Upvoted False), ?out d)
       else (Inr (Upvoted True), ?in d))"
    using step [OF ok1 uniq refl] first by simp
  have d1: "reports d1 = reports d" "users d1 = users d" "upvotes_unique d1"
    "has_upvoted d1 rid (u_id caller) = (\<not> has_upvoted d rid (u_id caller))"
    "res1 = Inr (Upvoted (\<not> has_upvoted d rid (u_id caller)))"
    using one uniq by (auto simp: upvotes_unique_def has_upvoted_def split: if_splits)
  have two: "(res2, d2) =
      (if has_upvoted d1 rid (u_id caller) then (Inr (Upvoted False), ?out d1)
       else (Inr (Upvoted True), ?in d1))"
    using step [OF ok2 d1(3) d1(1)] second by simp
  have d2: "reports d2 = reports d" "users d2 = users d" "upvotes_unique d2"
    "has_upvoted d2 rid (u_id caller) = has_upvoted d rid (u_id caller)"
    "res2 = Inr (Upvoted (has_upvoted d rid (u_id caller)))"
    using two d1 by (auto simp: upvotes_unique_def has_upvoted_def split: if_splits)
  have same: "set (report_upvotes d2) = set (report_upvotes d)"
  proof (cases "has_upvoted d rid (u_id caller)")
    case True
    then have "d1 = ?out d" "d2 = ?in d1"
      using one two d1(4) by simp_all
    then show ?thesis using True by (auto simp: has_upvoted_def)
  next
    case False
    then have "d1 = ?in d" "d2 = ?out d1"
      using one two d1(4) by simp_all
    then show ?thesis using False by (auto simp: has_upvoted_def)
  qed
  show ?thesis
    using d1 d2 same upvote_rows_le_one [OF d1(3)] upvote_rows_le_one [OF d2(3)] by simp
qed

theorem upvote_toggle_involutory_witness:
  "u_role dan = ''citizen'' \<and> store calm = reliable \<and> reports_keyed town \<and>
   upvotes_unique town \<and> x2 \<in> set (reports town) \<and> r_id x2 = ''x2'' \<and>
   r_created_by x2 \<noteq> u_id dan \<and>
   \<not> has_upvoted town ''x2'' (u_id dan) \<and>
   has_upvoted (snd (route_post_upvote calm town (Some dan) ''x2'')) ''x2'' (u_id dan) \<and>
   \<not> has_upvoted
       (snd (route_post_upvote calm (snd (route_post_upvote calm town (Some dan) ''x2''))
              (Some dan) ''x2'')) ''x2'' (u_id dan) \<and>
   upvote_rows (snd (route_post_upvote calm town (Some dan) ''x2'')) ''x2'' (u_id dan) \<le> 1"
proof -
  have c: "u_role dan = ''citizen''" by (simp add: dan_def person_def)
  have i: "r_id x2 = ''x2''" and o: "r_created_by x2 \<noteq> u_id dan"
    by (simp_all add: x2_def filed_def dan_def person_def)
  have n: "\<not> has_upvoted town ''x2'' (u_id dan)"
    by (simp add: has_upvoted_def town_def dan_def person_def)
  obtain res1 d1 where f: "route_post_upvote calm town (Some dan) ''x2'' = (res1, d1)"
    by (cases "route_post_upvote calm town (Some dan) ''x2''") 
  obtain res2 d2 where s: "route_post_upvote calm d1 (Some dan) ''x2'' = (res2, d2)"
    by (cases "route_post_upvote calm d1 (Some dan) ''x2''")
  note t = upvote_toggle_involutory [OF c town_facts(7) town_facts(7) town_facts(1)
      town_facts(2) town_facts(5) i o f s]
  show ?thesis using c town_facts i o n t f s by simp
qed

section \<open>Report update\<close>

lemma apply_update_never_invalid:
  "fst (apply_update e d rid updates) \<noteq> Inl InvalidAssignment"
  by (simp add: apply_update_def split: prod.splits reply.splits)

lemma update_report_reaches_guard:
  assumes keyed: "reports_keyed d" and r: "r \<in> set (reports d)" and rid: "r_id r = rid"
    and own: "u_municipality_id caller = Some (r_municipality_id r)"
    and ok: "store e UpdateSelectReport = Completes"
  shows "update_report e d caller rid updates =
           (if truthy (field updates ''assigned_official'') then
              (case single (store e UpdateSelectOfficial)
                      (from_users d
                        (eq_filter ''municipality_id'' (nullable (u_municipality_id caller))
                          (eq_filter ''role'' (JStr ''official'')
                            (eq_filter ''id'' (field updates ''assigned_official'')
                              select_from)))) of
                 Thrown \<Rightarrow> (Inl Internal, d)
               | Error \<Rightarrow> (Inl InvalidAssignment, d)
               | Data official \<Rightarrow> apply_update e d rid updates)
            else apply_update e d rid updates)"
proof -
  have "filter (\<lambda>y. r_id y = r_id r) (reports d) = [r]"
    using keyed r unfolding reports_keyed_def by (rule filter_key_single)
  then have "single (store e UpdateSelectReport)
      (from_reports d (eq_filter ''id'' (JStr rid) select_from)) = Data r"
    using rid by (simp add: report_by_id single_rows ok)
  then show ?thesis
    using own by (simp add: update_report_def strict_eq_def nullable_def)
qed

text \<open>A report of another municipality is refused before the patch is looked at.\<close>

lemma update_report_foreign_report:
  assumes "reports_keyed d" and "r \<in> set (reports d)" and "r_id r = rid"
    and "u_municipality_id caller \<noteq> Some (r_municipality_id r)"
    and "store e UpdateSelectReport = Completes"
  shows "update_report e d caller rid updates = (Inl Forbidden, d)"
proof -
  have "filter (\<lambda>y. r_id y = r_id r) (reports d) = [r]"
    using assms(1,2) unfolding reports_keyed_def by (rule filter_key_single)
  then have "single (store e UpdateSelectReport)
      (from_reports d (eq_filter ''id'' (JStr rid) select_from)) = Data r"
    using assms(3,5) by (simp add: report_by_id single_rows)
  then show ?thesis
    using assms(4)
    by (auto simp: update_report_def strict_eq_def nullable_def split: option.splits)
qed

text \<open>
  Claim C6. For an official updating a report of their own municipality with a patch
  that names an assignee (a truthy \<open>assigned_official\<close>): the request fails
  \<open>InvalidAssignment\<close>, the store unchanged, unless the value is the id of a user whose
  role is official and whose municipality is the acting official's, in which case the
  handler goes on to apply the patch (which never answers \<open>InvalidAssignment\<close>). In
  particular an assignee outside the report's municipality always fails
  \<open>InvalidAssignment\<close>. The handler runs behind the official role check; the statement
  holds for whoever reaches it. Keys hold and the two selects complete.
\<close>

theorem assignment_needs_official_of_same_municipality:
  assumes reports_key: "reports_keyed d" and users_key: "users_keyed d"
    and r: "r \<in> set (reports d)" and rid: "r_id r = rid"
    and own: "u_municipality_id caller = Some (r_municipality_id r)"
    and ok: "store e UpdateSelectReport = Completes" "store e UpdateSelectOfficial = Completes"
    and given: "truthy (field updates ''assigned_official'')"
  shows "update_report e d caller rid updates =
           (if \<exists>a \<in> set (users d). field updates ''assigned_official'' = JStr (u_id a) \<and>
                 u_role a = ''official'' \<and> u_municipality_id a = u_municipality_id caller
            then apply_update e d rid updates
            else (Inl InvalidAssignment, d)) \<and>
         fst (apply_update e d rid updates) \<noteq> Inl InvalidAssignment \<and>
         (\<forall>a \<in> set (users d). field updates ''assigned_official'' = JStr (u_id a) \<and>
            u_municipality_id a \<noteq> Some (r_municipality_id r) \<longrightarrow>
              update_report e d caller rid updates = (Inl InvalidAssignment, d))"
proof -
  let ?v = "field updates ''assigned_official''"
  let ?m = "u_municipality_id caller"
  let ?P = "\<lambda>u. ?v = JStr (u_id u) \<and> u_role u = ''official'' \<and> ?m \<noteq> None \<and>
                 u_municipality_id u = ?m"
  let ?valid = "\<exists>a \<in> set (users d). ?v = JStr (u_id a) \<and> u_role a = ''official'' \<and>
      u_municipality_id a = ?m"
  have valid: "(\<exists>a. filter ?P (users d) = [a]) = ?valid"
    unfolding official_rows [OF users_key] using own by simp
  have lookup: "single (store e UpdateSelectOfficial)
      (from_users d (eq_filter ''municipality_id'' (nullable ?m)
         (eq_filter ''role'' (JStr ''official'') (eq_filter ''id'' ?v select_from)))) =
      (case filter ?P (users d) of [a] \<Rightarrow> Data a | _ \<Rightarrow> Error)"
    by (simp add: official_lookup single_rows ok)
  have step: "update_report e d caller rid updates =
      (case filter ?P (users d) of
         [a] \<Rightarrow> apply_update e d rid updates
       | _ \<Rightarrow> (Inl InvalidAssignment, d))"
    using given
    by (simp add: update_report_reaches_guard [OF reports_key r rid own ok(1)] lookup
        split: list.splits)
  have main: "update_report e d caller rid updates =
      (if ?valid then apply_update e d rid updates else (Inl InvalidAssignment, d))"
  proof (cases ?valid)
    case True
    then obtain a where "filter ?P (users d) = [a]" using valid by blast
    then have "update_report e d caller rid updates = apply_update e d rid updates"
      unfolding step by simp
    then show ?thesis using True by meson
  next
    case False
    then have "\<nexists>a. filter ?P (users d) = [a]" using valid by simp
    then have "update_report e d caller rid updates = (Inl InvalidAssignment, d)"
      unfolding step by (auto split: list.splits)
    then show ?thesis using False by meson
  qed
  have outside: "update_report e d caller rid updates = (Inl InvalidAssignment, d)"
    if a: "a \<in> set (users d)" and v: "?v = JStr (u_id a)"
      and out: "u_municipality_id a \<noteq> Some (r_municipality_id r)" for a
  proof -
    have "\<not> ?valid"
    proof
      assume ?valid
      then obtain a' where a': "a' \<in> set (users d)" "?v = JStr (u_id a')"
        "u_municipality_id a' = ?m" by blast
      have "u_id a' = u_id a" using v a'(2) by simp
      then have "a' = a"
        using users_key a a'(1) unfolding users_keyed_def
        by (metis distinct_map inj_on_def)
      then show False using a'(3) own out by simp
    qed
    then show ?thesis unfolding main by (rule if_not_P)
  qed
  show ?thesis
    using main apply_update_never_invalid outside by blast
qed

theorem assignment_needs_official_of_same_municipality_witness:
  "reports_keyed town \<and> users_keyed town \<and> x1 \<in> set (reports town) \<and> r_id x1 = ''x1'' \<and>
   u_municipality_id carol = Some (r_municipality_id x1) \<and>
   store calm UpdateSelectReport = Completes \<and> store calm UpdateSelectOfficial = Completes \<and>
   truthy (field [(''assigned_official'', JStr ''erin'')] ''assigned_official'') \<and>
   update_report calm town carol ''x1'' [(''assigned_official'', JStr ''erin'')] =
     (Inl InvalidAssignment, town) \<and>
   update_report calm town carol ''x1'' [(''assigned_official'', JStr ''frank'')] =
     (Inr (ReportUpdated (x1\<lparr>r_assigned_official := Some ''frank''\<rparr>)), busy_town)"
proof -
  have i: "r_id x1 = ''x1''" "u_municipality_id carol = Some (r_municipality_id x1)"
    by (simp_all add: x1_def filed_def carol_def person_def)
  have s: "store calm UpdateSelectReport = Completes" "store calm UpdateSelectOfficial = Completes"
    by (simp_all add: calm_def reliable_def)
  have g: "truthy (field [(''assigned_official'', JStr ''erin'')] ''assigned_official'')"
    "truthy (field [(''assigned_official'', JStr ''frank'')] ''assigned_official'')"
    by (simp_all add: field_def)
  note t = assignment_needs_official_of_same_municipality
    [OF town_facts(1) town_facts(3) town_facts(4) i s]
  have a: "update_report calm town carol ''x1'' [(''assigned_official'', JStr ''erin'')] =
      (Inl InvalidAssignment, town)"
    using t [OF g(1)]
    by (simp add: field_def town_def alice_def dan_def bob_def carol_def erin_def frank_def
        person_def)
  have "update_report calm town carol ''x1'' [(''assigned_official'', JStr ''frank'')] =
      apply_update calm town ''x1'' [(''assigned_official'', JStr ''frank'')]"
    using t [OF g(2)]
    by (simp add: field_def town_def alice_def dan_def bob_def carol_def erin_def frank_def
        person_def)
  also have "\<dots> = (Inr (ReportUpdated (x1\<lparr>r_assigned_official := Some ''frank''\<rparr>)), busy_town)"
    by (simp add: update_defs sample_defs)
  finally show ?thesis using town_facts i s g a by simp
qed

text \<open>
  Claim C10. The assignee is validated only when \<open>assigned_official\<close> is truthy. When
  it is absent, null or otherwise falsy the request never fails \<open>InvalidAssignment\<close>,
  whatever the store does, and for a report of the caller's municipality the handler
  goes straight to applying the patch; clearing an assignment with null is such a case.
\<close>

theorem falsy_assignment_skips_validation:
  assumes falsy: "\<not> truthy (field updates ''assigned_official'')"
  shows "fst (update_report e d caller rid updates) \<noteq> Inl InvalidAssignment \<and>
         (\<forall>r \<in> set (reports d).
            reports_keyed d \<and> r_id r = rid \<and>
            u_municipality_id caller = Some (r_municipality_id r) \<and>
            store e UpdateSelectReport = Completes \<longrightarrow>
              update_report e d caller rid updates = apply_update e d rid updates)"
proof (intro conjI ballI impI)
  show "fst (update_report e d caller rid updates) \<noteq> Inl InvalidAssignment"
    using falsy apply_update_never_invalid [of e d rid updates]
    by (simp add: update_report_def split: reply.splits)
next
  fix r
  assume r: "r \<in> set (reports d)"
    and rest: "reports_keyed d \<and> r_id r = rid \<and>
      u_municipality_id caller = Some (r_municipality_id r) \<and>
      store e UpdateSelectReport = Completes"
  from rest have "update_report e d caller rid updates =
      (if truthy (field updates ''assigned_official'') then
         (case single (store e UpdateSelectOfficial)
                 (from_users d
                   (eq_filter ''municipality_id'' (nullable (u_municipality_id caller))
                     (eq_filter ''role'' (JStr ''official'')
                       (eq_filter ''id'' (field updates ''assigned_official'')
                         select_from)))) of
            Thrown \<Rightarrow> (Inl Internal, d)
          | Error \<Rightarrow> (Inl InvalidAssignment, d)
          | Data official \<Rightarrow> apply_update e d rid updates)
       else apply_update e d rid updates)"
    using r by (intro update_report_reaches_guard) auto
  then show "update_report e d caller rid updates = apply_update e d rid updates"
    using falsy by simp
qed

theorem falsy_assignment_skips_validation_witness:
  "\<not> truthy (field [(''assigned_official'', JNull)] ''assigned_official'') \<and>
   reports_keyed busy_town \<and> r_id (x1\<lparr>r_assigned_official := Some ''frank''\<rparr>) = ''x1'' \<and>
   update_report calm busy_town carol ''x1'' [(''assigned_official'', JNull)] =
     (Inr (ReportUpdated x1), town)"
proof -
  let ?b = "[(''assigned_official'', JNull)]"
  let ?r = "x1\<lparr>r_assigned_official := Some ''frank''\<rparr>"
  have f: "\<not> truthy (field ?b ''assigned_official'')" by (simp add: field_def)
  have k: "reports_keyed busy_town"
    by (simp add: reports_keyed_def sample_defs)
  have h: "?r \<in> set (reports busy_town)" "r_id ?r = ''x1''"
    "u_municipality_id carol = Some (r_municipality_id ?r)"
    "store calm UpdateSelectReport = Completes"
    by (simp_all add: sample_defs)
  have "update_report calm busy_town carol ''x1'' ?b = apply_update calm busy_town ''x1'' ?b"
    using falsy_assignment_skips_validation [OF f, of calm busy_town carol "''x1''"] k h
    by blast
  also have "\<dots> = (Inr (ReportUpdated x1), town)"
    by (simp add: update_defs sample_defs)
  finally show ?thesis using f k h by simp
qed

subsection \<open>The columns an update leaves alone\<close>

lemma set_column_frame:
  assumes "set_column c v r = Some r'" and "c' \<noteq> c"
  shows "report_value c' r' = report_value c' r"
  using assms
  by (auto simp: set_column_def set_text_def set_nullable_text_def set_number_def
      split: if_splits jsval.splits) (simp_all add: report_value_def)

lemma patch_row_frame:
  assumes "patch_row cs b r = Some r'" and "map_of b c' = None"
  shows "report_value c' r' = report_value c' r"
  using assms
proof (induction cs arbitrary: r)
  case Nil
  then show ?case by simp
next
  case (Cons c cs)
  show ?case
  proof (cases "map_of b c")
    case None
    then show ?thesis using Cons by simp
  next
    case (Some v)
    then obtain r1 where r1: "set_column c v r = Some r1" and rest: "patch_row cs b r1 = Some r'"
      using Cons.prems(1) by (auto split: option.splits)
    have "c' \<noteq> c" using Some Cons.prems(2) by auto
    then have "report_value c' r1 = report_value c' r"
      using r1 by (intro set_column_frame)
    then show ?thesis using Cons.IH [OF rest Cons.prems(2)] by simp
  qed
qed

lemma update_row_frame:
  assumes "update_row b r = Some r'" and "c \<notin> fst ` set b"
  shows "report_value c r' = report_value c r"
proof -
  have "map_of b c = None" using assms(2) by (simp add: map_of_eq_None_iff)
  moreover have "patch_row report_columns b r = Some r'"
    using assms(1) by (auto simp: update_row_def split: if_splits)
  ultimately show ?thesis by (intro patch_row_frame)
qed

lemma patch_table_rows:
  assumes "patch_table b q rows = Some (table, updated)"
  shows "list_all2 (\<lambda>x y. if list_all (matches report_column x) (filters q)
                          then update_row b x = Some y else y = x) rows table"
proof -
  define R where "R = (\<lambda>x y. if list_all (matches report_column x) (filters q)
                              then update_row b x = Some y else y = x)"
  have "list_all2 R rows table"
    using assms
  proof (induction rows arbitrary: table updated)
    case Nil
    then show ?case by simp
  next
    case (Cons x rows)
    from Cons.prems obtain t u where rec: "patch_table b q rows = Some (t, u)"
      by (auto split: option.splits)
    have ih: "list_all2 R rows t" by (rule Cons.IH [OF rec])
    obtain y where "table = y # t" "R x y"
      using Cons.prems rec by (auto simp: R_def split: option.splits if_splits)
    then show ?case using ih by simp
  qed
  then show ?thesis unfolding R_def .
qed

lemma patch_table_updated:
  assumes "patch_table b q rows = Some (table, updated)" and "y \<in> set updated"
  shows "\<exists>x \<in> set rows. list_all (matches report_column x) (filters q) \<and>
           update_row b x = Some y \<and> y \<in> set table"
  using assms
proof (induction rows arbitrary: table updated)
  case Nil
  then show ?case by simp
next
  case (Cons x rows)
  from Cons.prems obtain t u where rec: "patch_table b q rows = Some (t, u)"
    by (auto split: option.splits)
  show ?case
  proof (cases "y \<in> set u")
    case True
    from Cons.IH [OF rec True] have "\<exists>x \<in> set rows.
        list_all (matches report_column x) (filters q) \<and> update_row b x = Some y \<and> y \<in> set t" .
    moreover have "set t \<subseteq> set table"
      using Cons.prems(1) rec by (auto split: option.splits if_splits)
    ultimately show ?thesis by auto
  next
    case False
    then show ?thesis
      using Cons.prems rec by (auto split: option.splits if_splits)
  qed
qed

lemma patch_table_frame:
  assumes "patch_table b q rows = Some (table, updated)" and "c \<notin> fst ` set b"
  shows "map (report_value c) table = map (report_value c) rows"
proof -
  have "list_all2 (\<lambda>x y. report_value c y = report_value c x) rows table"
    using patch_table_rows [OF assms(1)]
  proof (rule list_all2_mono)
    fix x y
    assume "if list_all (matches report_column x) (filters q)
            then update_row b x = Some y else y = x"
    then show "report_value c y = report_value c x"
      using update_row_frame [OF _ assms(2)] by (auto split: if_splits)
  qed
  then show ?thesis
    by (induction rule: list_all2_induct) auto
qed

lemma patch_table_others:
  assumes "patch_table b (eq_filter ''id'' (JStr rid) select_from) rows = Some (table, updated)"
  shows "list_all2 (\<lambda>x y. r_id x \<noteq> rid \<longrightarrow> y = x) rows table"
proof -
  have "list_all (matches report_column x) (filters (eq_filter ''id'' (JStr rid) select_from)) =
      (r_id x = rid)" for x
    by (simp add: eq_filter_def select_from_def matches_def report_column_def)
  then show ?thesis
    using patch_table_rows [OF assms] by (auto elim!: list_all2_mono split: if_splits)
qed

lemma same_column:
  assumes "map (report_value c) xs = map (report_value c) ys"
    and "\<And>r. report_value c r = JStr (f r)"
  shows "map f xs = map f ys"
proof -
  have "list_all2 (\<lambda>x y. report_value c x = report_value c y) xs ys"
    using assms(1) by (simp add: list_all2_conv_all_nth list_eq_iff_nth_eq)
  then have "list_all2 (\<lambda>x y. f x = f y) xs ys"
    by (rule list_all2_mono) (simp add: assms(2))
  then show ?thesis
    by (induction rule: list_all2_induct) auto
qed

lemma validate_update_keys:
  assumes "validate_update strict b = Inr updates"
  shows "fst ` set updates \<subseteq> fst ` set b - set immutable_columns"
  using assms
  by (auto simp: validate_update_def list_ex_iff split: if_splits)

lemma apply_update_success:
  assumes "apply_update e d rid updates = (Inr p, d')"
  shows "\<exists>table r'. patch_table updates (eq_filter ''id'' (JStr rid) select_from) (reports d) =
             Some (table, [r']) \<and>
           p = ReportUpdated r' \<and> d' = d\<lparr>reports := table\<rparr>"
  using assms
  by (auto simp: apply_update_def update_reports_def
      split: outcome.splits option.splits prod.splits list.splits if_splits reply.splits)

lemma update_report_success:
  assumes "update_report e d u rid updates = (Inr p, d')"
  shows "apply_update e d rid updates = (Inr p, d')"
  using assms
  by (auto simp: update_report_def split: reply.splits if_splits)

lemma route_put_report_success:
  assumes "route_put_report strict e d (Some caller) rid b = (Inr p, d')"
  shows "\<exists>updates. validate_update strict b = Inr updates \<and>
           apply_update e d rid updates = (Inr p, d')"
  using assms
  by (auto simp: route_put_report_def authenticateToken_def
      split: sum.splits dest: update_report_success)

text \<open>
  Claim C7. For every update by an official that succeeds, \<open>id\<close>, \<open>created_by\<close> and
  \<open>municipality_id\<close> of every report are what they were, also when the body carries
  values for them (the validation rejects the body or drops the keys); a column the
  body does not name keeps its value, reports with another id are untouched, the
  answer is the updated report with the requested id, and users and upvotes are
  unchanged. This is the route with the validation modelled from the spec in front of
  the handler.
\<close>

theorem update_keeps_immutable_fields:
  assumes success: "route_put_report strict e d (Some caller) rid b = (Inr p, d')"
  shows "map r_id (reports d') = map r_id (reports d) \<and>
         map r_created_by (reports d') = map r_created_by (reports d) \<and>
         map r_municipality_id (reports d') = map r_municipality_id (reports d) \<and>
         (\<forall>c. c \<notin> fst ` set b \<longrightarrow>
            map (report_value c) (reports d') = map (report_value c) (reports d)) \<and>
         list_all2 (\<lambda>x y. r_id x \<noteq> rid \<longrightarrow> y = x) (reports d) (reports d') \<and>
         (\<exists>r'. p = ReportUpdated r' \<and> r' \<in> set (reports d') \<and> r_id r' = rid) \<and>
         users d' = users d \<and> report_upvotes d' = report_upvotes d"
proof -
  from route_put_report_success [OF success] obtain updates where
    valid: "validate_update strict b = Inr updates"
    and applied: "apply_update e d rid updates = (Inr p, d')" by blast
  from apply_update_success [OF applied] obtain table r' where
    patched: "patch_table updates (eq_filter ''id'' (JStr rid) select_from) (reports d) =
      Some (table, [r'])"
    and p: "p = ReportUpdated r'" and d': "d' = d\<lparr>reports := table\<rparr>" by blast
  have keys: "fst ` set updates \<subseteq> fst ` set b - set immutable_columns"
    using valid by (rule validate_update_keys)
  have frame: "map (report_value c) table = map (report_value c) (reports d)"
    if "c \<notin> fst ` set b \<or> c \<in> set immutable_columns" for c
    using patched that keys by (intro patch_table_frame) auto
  have ids: "map r_id table = map r_id (reports d)"
    by (rule same_column [OF frame [of "''id''"]])
      (simp_all add: immutable_columns_def report_value_def)
  have authors: "map r_created_by table = map r_created_by (reports d)"
    by (rule same_column [OF frame [of "''created_by''"]])
      (simp_all add: immutable_columns_def report_value_def)
  have tenants: "map r_municipality_id table = map r_municipality_id (reports d)"
    by (rule same_column [OF frame [of "''municipality_id''"]])
      (simp_all add: immutable_columns_def report_value_def)
  have others: "list_all2 (\<lambda>x y. r_id x \<noteq> rid \<longrightarrow> y = x) (reports d) table"
    using patched by (rule patch_table_others)
  have "\<exists>x \<in> set (reports d). r_id x = rid \<and> update_row updates x = Some r' \<and> r' \<in> set table"
    using patch_table_updated [OF patched, of r']
    by (auto simp: eq_filter_def select_from_def matches_def report_column_def)
  then obtain x where x: "r_id x = rid" "update_row updates x = Some r'" "r' \<in> set table"
    by blast
  have "''id'' \<notin> fst ` set updates"
    using keys by (auto simp: immutable_columns_def)
  then have "report_value ''id'' r' = report_value ''id'' x"
    using x(2) by (intro update_row_frame)
  then have "r_id r' = rid"
    using x(1) by (simp add: report_value_def)
  then show ?thesis
    using ids authors tenants frame others p d' x(3) by simp
qed

theorem update_keeps_immutable_fields_witness:
  "route_put_report False calm town (Some carol) ''x1''
     [(''created_by'', JStr ''dan''), (''status'', JStr ''done'')] =
     (Inr (ReportUpdated (x1\<lparr>r_status := ''done''\<rparr>)),
      town\<lparr>reports := [x1\<lparr>r_status := ''done''\<rparr>, y1, x2, x3]\<rparr>) \<and>
   route_put_report True calm town (Some carol) ''x1''
     [(''created_by'', JStr ''dan''), (''status'', JStr ''done'')] =
     (Inl ValidationFailed, town) \<and>
   map r_created_by (reports (town\<lparr>reports := [x1\<lparr>r_status := ''done''\<rparr>, y1, x2, x3]\<rparr>)) =
     map r_created_by (reports town)"
proof -
  let ?b = "[(''created_by'', JStr ''dan''), (''status'', JStr ''done'')]"
  let ?d = "town\<lparr>reports := [x1\<lparr>r_status := ''done''\<rparr>, y1, x2, x3]\<rparr>"
  have lax: "route_put_report False calm town (Some carol) ''x1'' ?b =
      (Inr (ReportUpdated (x1\<lparr>r_status := ''done''\<rparr>)), ?d)"
    by (simp add: route_put_report_def authenticateToken_def requireOfficial_def
        validate_update_def immutable_columns_def update_report_def store_defs
        strict_eq_def nullable_def update_defs sample_defs)
  have strict: "route_put_report True calm town (Some carol) ''x1'' ?b =
      (Inl ValidationFailed, town)"
    by (simp add: route_put_report_def authenticateToken_def requireOfficial_def
        validate_update_def immutable_columns_def sample_defs)
  have "map r_created_by (reports ?d) = map r_created_by (reports town)"
    using update_keeps_immutable_fields [OF lax] by blast
  then show ?thesis using lax strict by simp
qed

text \<open>
  Without the validation in front of it the handler writes the body as it comes: the
  protection of the immutable columns rests on the middleware alone.
\<close>

lemma handler_writes_body_verbatim:
  "update_report calm town carol ''x1'' [(''created_by'', JStr ''dan'')] =
     (Inr (ReportUpdated (x1\<lparr>r_created_by := ''dan''\<rparr>)),
      town\<lparr>reports := [x1\<lparr>r_created_by := ''dan''\<rparr>, y1, x2, x3]\<rparr>)"
  by (simp add: update_report_def store_defs strict_eq_def nullable_def
      update_defs sample_defs)

lemma update_report_keeps_keys:
  assumes "update_report e d caller rid updates = (res, d')" and "reports_keyed d"
  shows "reports_keyed d'"
proof -
  have "apply_update e d rid updates = (res', d'') \<Longrightarrow> reports_keyed d''" for res' d''
    using assms(2)
    by (auto simp: apply_update_def update_reports_def reports_keyed_def
        split: outcome.splits option.splits list.splits if_splits)
  then show ?thesis
    using assms by (auto simp: update_report_def split: reply.splits if_splits)
qed

section \<open>User profile\<close>

lemma dispatch_users_single_segment:
  "x \<noteq> [] \<Longrightarrow> dispatch users_routes e d u [x] = get_user e d u (JStr x)"
  by (simp add: users_routes_def param_def)

text \<open>
  Claim C9. \<open>GET /users/me\<close> is to return the caller's own profile. The users router
  registers \<open>/:id\<close> before \<open>/me\<close>, so the path \<open>me\<close> is served by the lookup of a
  user whose id is \<open>me\<close>: the request answers \<open>NotFound\<close>, although the handler
  registered for \<open>/me\<close> would have returned the caller's profile.
\<close>

theorem users_me_answers_not_found:
  "users_router calm town (Some alice) [''me''] = Inl NotFound \<and>
   get_me calm town alice = Inr (UserFound alice)"
  by (simp add: users_router_def authenticateToken_def users_routes_def get_user_def get_me_def
      param_def store_defs sample_defs)

lemma users_me_never_found:
  assumes "''me'' \<notin> u_id ` set (users d)"
  shows "users_router e d (Some u) [''me''] \<in> {Inl NotFound, Inl Internal}"
proof -
  have "filter (\<lambda>x. u_id x = ''me'') (users d) = []"
    using assms by (rule filter_key_none)
  then have "from_users d (eq_filter ''id'' (JStr ''me'') select_from) = Some []"
    by (simp add: from_users_def run_eq_filter user_column_def)
  then show ?thesis
    by (simp add: users_router_def authenticateToken_def dispatch_users_single_segment
        get_user_def single_def await_def split: outcome.splits)
qed

end
